theory Spec2Isabelle
  imports Complex_Main "HOL-Library.AList"
begin

section \<open>TxVoc backend: data model\<close>

text \<open>
  The embedding follows \<^verbatim>\<open>backend/main.py\<close>. The two module-level dictionaries and the
  storage tree on disk form the state that every route handler reads and updates. What
  the process draws from its environment (\<^verbatim>\<open>uuid.uuid4()\<close>, \<^verbatim>\<open>datetime.now()\<close>) is passed
  to the handlers as explicit arguments. Logging has no effect on that state and is left
  out. Python floats are represented by the rational number they denote. A Python string
  is the list of its characters; the characters of the model are those below U+0100.
\<close>

type_synonym pyfloat = rat

type_synonym path = "string list"
  \<comment> \<open>an absolute POSIX path as pathlib holds it: the components below the root;
      \<^verbatim>\<open>..\<close> components are kept, as pathlib keeps them\<close>

record Voice =
  v_id :: string
  v_name :: string
  v_description :: string
  v_language :: string
  v_created_at :: string
  v_file_path :: "path option"
  v_duration :: "pyfloat option"
  v_sample_rate :: "int option"

record SynthesisRequest =
  req_text :: string
  req_voice_id :: string
  req_speed :: pyfloat
  req_pitch :: pyfloat

record SynthesisResponse =
  s_id :: string
  s_audio_url :: string
  s_duration :: "pyfloat option"
  s_voice_id :: string
  s_text :: string
  s_created_at :: string

text \<open>The part of starlette's \<^verbatim>\<open>UploadFile\<close> that the handlers read.\<close>

record UploadFile =
  up_filename :: "string option"
  up_content_type :: "string option"
  up_bytes :: string

text \<open>
  What a file on disk holds: the bytes of an upload, or the placeholder text that
  \<^verbatim>\<open>generate_synthesis_audio\<close> formats from six values. The placeholder is kept as those
  six values (id, text, voice, speed, pitch, timestamp) instead of the formatted text.
\<close>

datatype file_content =
    Uploaded string
  | Placeholder string string string pyfloat pyfloat string

datatype node = File file_content | Dir

type_synonym filesystem = "path \<rightharpoonup> node"

record state =
  voices_db :: "(string \<times> Voice) list"
  synthesis_cache :: "(string \<times> SynthesisResponse) list"
  disk :: filesystem

text \<open>
  Both dictionaries are association lists in insertion order, which is the order Python
  dictionaries iterate in: \<^const>\<open>AList.update\<close> overwrites in place or appends, as
  \<^verbatim>\<open>d[k] = v\<close> does, and \<^const>\<open>AList.delete\<close> is \<^verbatim>\<open>del d[k]\<close>.
\<close>

subsection \<open>Errors\<close>

text \<open>
  What a file operation raises: an \<^verbatim>\<open>OSError\<close> of one of five kinds, or the
  \<^verbatim>\<open>ValueError\<close> with which Python refuses a path that contains a null character.
\<close>

datatype os_error =
    IsADirectoryError path
  | FileNotFoundError path
  | NotADirectoryError path
  | FileExistsError path
  | FileNameTooLong path
  | EmbeddedNullByte

text \<open>
  What a client receives instead of a result: an \<^verbatim>\<open>HTTPException\<close> raised by a handler,
  FastAPI's answer to a body that fails validation, or the answer of
  \<^verbatim>\<open>general_exception_handler\<close> to any other exception.
\<close>

datatype http_error =
    HTTPException nat string
  | RequestValidationError "string list"
  | InternalServerError

fun status_code :: "http_error \<Rightarrow> nat" where
  "status_code (HTTPException c d) = c"
| "status_code (RequestValidationError locs) = 422"
| "status_code InternalServerError = 500"

definition HTTP_400_BAD_REQUEST :: nat where "HTTP_400_BAD_REQUEST = 400"
definition HTTP_404_NOT_FOUND :: nat where "HTTP_404_NOT_FOUND = 404"
definition HTTP_500_INTERNAL_SERVER_ERROR :: nat where "HTTP_500_INTERNAL_SERVER_ERROR = 500"

definition quote :: "string \<Rightarrow> string" where
  "quote s = [CHR 0x27] @ s @ [CHR 0x27]"

section \<open>Paths\<close>

text \<open>
  \<^verbatim>\<open>Path(s)\<close> splits \<^verbatim>\<open>s\<close> at \<^verbatim>\<open>/\<close> and drops empty and \<^verbatim>\<open>.\<close> components; \<^verbatim>\<open>d / s\<close> is
  \<^verbatim>\<open>s\<close> alone when \<^verbatim>\<open>s\<close> starts with \<^verbatim>\<open>/\<close>, and \<^verbatim>\<open>d\<close> followed by the components of
  \<^verbatim>\<open>s\<close> otherwise.
\<close>

fun split_slash :: "string \<Rightarrow> string list" where
  "split_slash [] = [[]]"
| "split_slash (c # cs) =
     (if c = CHR ''/'' then [] # split_slash cs
      else (case split_slash cs of
              [] \<Rightarrow> [[c]]
            | w # ws \<Rightarrow> (c # w) # ws))"

definition path_parts :: "string \<Rightarrow> string list" where
  "path_parts s = filter (\<lambda>c. c \<noteq> [] \<and> c \<noteq> ''.'') (split_slash s)"

definition is_absolute :: "string \<Rightarrow> bool" where
  "is_absolute s = (case s of [] \<Rightarrow> False | c # cs \<Rightarrow> c = CHR ''/'')"

definition path_join :: "path \<Rightarrow> string \<Rightarrow> path" where
  "path_join d s = (if is_absolute s then path_parts s else d @ path_parts s)"

definition path_name :: "path \<Rightarrow> string" where
  "path_name p = (if p = [] then [] else last p)"

text \<open>\<^verbatim>\<open>name.rfind('.')\<close>: the index of the last dot, or \<open>-1\<close>.\<close>

fun rfind_dot :: "string \<Rightarrow> int" where
  "rfind_dot [] = - 1"
| "rfind_dot (c # cs) =
     (let r = rfind_dot cs
      in if 0 \<le> r then r + 1 else if c = CHR ''.'' then 0 else - 1)"

text \<open>
  \<^verbatim>\<open>PurePath.suffix\<close>:
  \<^verbatim>\<open>i = name.rfind('.'); return name[i:] if 0 < i < len(name) - 1 else ''\<close>.
\<close>

definition path_suffix :: "path \<Rightarrow> string" where
  "path_suffix p =
     (let name = path_name p; i = rfind_dot name
      in if 0 < i \<and> i < int (length name) - 1 then drop (nat i) name else [])"

text \<open>
  \<^verbatim>\<open>str.lower()\<close>. Below U+0100 the capital letters are \<^verbatim>\<open>A\<close> to \<^verbatim>\<open>Z\<close> (65 to 90) and
  U+00C0 to U+00DE without the multiplication sign U+00D7 (192 to 222 without 215); each
  has its small letter 32 places further on.
\<close>

definition lower_char :: "char \<Rightarrow> char" where
  "lower_char c =
     (let n = of_char c :: nat
      in if (65 \<le> n \<and> n \<le> 90) \<or> (192 \<le> n \<and> n \<le> 222 \<and> n \<noteq> 215)
         then char_of (n + 32) else c)"

definition lower :: "string \<Rightarrow> string" where
  "lower s = map lower_char s"

text \<open>
  The storage directories, below the directory \<open>base\<close> that holds the module
  (\<^verbatim>\<open>BASE_DIR = Path(__file__).parent\<close>).
\<close>

definition VOICES_DIR :: "path \<Rightarrow> path" where
  "VOICES_DIR base = base @ [''storage'', ''voices'']"

definition AUDIO_DIR :: "path \<Rightarrow> path" where
  "AUDIO_DIR base = base @ [''storage'', ''audio'']"

definition TEMP_DIR :: "path \<Rightarrow> path" where
  "TEMP_DIR base = base @ [''storage'', ''temp'']"

section \<open>The file system\<close>

text \<open>
  The disk maps every path that exists, resolved from the root, to its node; what exists
  lies below existing directories, and there are no symbolic links in the storage tree.
  The limits are those of Linux: a component has at most 255 bytes and the whole path
  fewer than 4096, counted in UTF-8, where a character from U+0080 on takes two bytes.
\<close>

definition utf8_length :: "string \<Rightarrow> nat" where
  "utf8_length s = sum_list (map (\<lambda>c. if (of_char c :: nat) < 128 then 1 else 2) s)"

definition NAME_MAX :: nat where "NAME_MAX = 255"

definition PATH_MAX :: nat where "PATH_MAX = 4096"

definition str_path :: "path \<Rightarrow> string" where
  "str_path p = (if p = [] then ''/'' else concat (map (\<lambda>c. CHR ''/'' # c) p))"

fun str_os_error :: "os_error \<Rightarrow> string" where
  "str_os_error (IsADirectoryError p) = ''[Errno 21] Is a directory: '' @ quote (str_path p)"
| "str_os_error (FileNotFoundError p) =
     ''[Errno 2] No such file or directory: '' @ quote (str_path p)"
| "str_os_error (NotADirectoryError p) = ''[Errno 20] Not a directory: '' @ quote (str_path p)"
| "str_os_error (FileExistsError p) = ''[Errno 17] File exists: '' @ quote (str_path p)"
| "str_os_error (FileNameTooLong p) = ''[Errno 36] File name too long: '' @ quote (str_path p)"
| "str_os_error EmbeddedNullByte = ''embedded null byte''"

text \<open>
  What is refused before the path is looked at component by component: Python raises
  for a null character, the kernel for a path of \<open>PATH_MAX\<close> bytes or more.
\<close>

definition check_path :: "path \<Rightarrow> os_error option" where
  "check_path p =
     (if \<exists>c \<in> set p. CHR 0x00 \<in> set c then Some EmbeddedNullByte
      else if PATH_MAX \<le> utf8_length (str_path p) then Some (FileNameTooLong p)
      else None)"

text \<open>
  The kernel resolves a path from the root, one component after the other. \<open>cur\<close> is
  where it stands. A \<^verbatim>\<open>..\<close> component steps to the parent (the root is its own
  parent), and only from an existing directory; a component of more than \<open>NAME_MAX\<close>
  bytes is refused by the directory it is looked up in.
\<close>

fun walk :: "filesystem \<Rightarrow> path \<Rightarrow> path \<Rightarrow> string list \<Rightarrow> os_error + path" where
  "walk d p cur [] = Inr cur"
| "walk d p cur (c # cs) =
     (if c = ''..'' \<or> NAME_MAX < utf8_length c
      then (case d cur of
              None \<Rightarrow> Inl (FileNotFoundError p)
            | Some (File x) \<Rightarrow> Inl (NotADirectoryError p)
            | Some Dir \<Rightarrow>
                if c = ''..'' then walk d p (butlast cur) cs else Inl (FileNameTooLong p))
      else walk d p (cur @ [c]) cs)"

definition resolve :: "filesystem \<Rightarrow> path \<Rightarrow> os_error + path" where
  "resolve d p = (case check_path p of Some e \<Rightarrow> Inl e | None \<Rightarrow> walk d p [] p)"

definition stat :: "filesystem \<Rightarrow> path \<Rightarrow> os_error + node" where
  "stat d p =
     (case resolve d p of
        Inl e \<Rightarrow> Inl e
      | Inr q \<Rightarrow>
          (case d q of
             Some n \<Rightarrow> Inr n
           | None \<Rightarrow>
               (case d (butlast q) of
                  Some (File x) \<Rightarrow> Inl (NotADirectoryError p)
                | _ \<Rightarrow> Inl (FileNotFoundError p))))"

text \<open>
  \<^verbatim>\<open>Path.exists()\<close> is \<^verbatim>\<open>stat()\<close> with three failures turned into \<^verbatim>\<open>False\<close>: no such
  file, not a directory, and the \<^verbatim>\<open>ValueError\<close>. Any other \<^verbatim>\<open>OSError\<close> is raised (pathlib
  of CPython 3.8 to 3.12).
\<close>

definition path_exists :: "filesystem \<Rightarrow> path \<Rightarrow> os_error + bool" where
  "path_exists d p =
     (case stat d p of
        Inr n \<Rightarrow> Inr True
      | Inl (FileNotFoundError x) \<Rightarrow> Inr False
      | Inl (NotADirectoryError x) \<Rightarrow> Inr False
      | Inl EmbeddedNullByte \<Rightarrow> Inr False
      | Inl e \<Rightarrow> Inl e)"

text \<open>
  \<^verbatim>\<open>open(p, 'w')\<close> followed by a write: the target must not be a directory and its
  parent must be one.
\<close>

definition write_file :: "filesystem \<Rightarrow> path \<Rightarrow> file_content \<Rightarrow> os_error + filesystem" where
  "write_file d p c =
     (case resolve d p of
        Inl e \<Rightarrow> Inl e
      | Inr q \<Rightarrow>
          if q = [] \<or> d q = Some Dir then Inl (IsADirectoryError p)
          else (case d (butlast q) of
                  None \<Rightarrow> Inl (FileNotFoundError p)
                | Some (File x) \<Rightarrow> Inl (NotADirectoryError p)
                | Some Dir \<Rightarrow> Inr (d(q \<mapsto> File c))))"

text \<open>\<^verbatim>\<open>Path.unlink()\<close> removes a file and raises on anything else.\<close>

definition unlink :: "filesystem \<Rightarrow> path \<Rightarrow> os_error + filesystem" where
  "unlink d p =
     (case stat d p of
        Inl e \<Rightarrow> Inl e
      | Inr Dir \<Rightarrow> Inl (IsADirectoryError p)
      | Inr (File x) \<Rightarrow>
          (case resolve d p of Inl e \<Rightarrow> Inl e | Inr q \<Rightarrow> Inr (d(q := None))))"

text \<open>
  \<^verbatim>\<open>Path.mkdir(parents=True, exist_ok=True)\<close>: every missing directory on the way is
  created; a file in the way raises, and so does a component that is too long.
\<close>

fun mkdir_from :: "path \<Rightarrow> path \<Rightarrow> string list \<Rightarrow> filesystem \<Rightarrow> os_error + filesystem" where
  "mkdir_from p cur [] d =
     (case d cur of
        None \<Rightarrow> Inr (d(cur \<mapsto> Dir))
      | Some Dir \<Rightarrow> Inr d
      | Some (File x) \<Rightarrow> Inl (FileExistsError p))"
| "mkdir_from p cur (c # cs) d =
     (case d cur of
        Some (File x) \<Rightarrow> Inl (NotADirectoryError p)
      | Some Dir \<Rightarrow>
          if c = ''..'' then mkdir_from p (butlast cur) cs d
          else if NAME_MAX < utf8_length c then Inl (FileNameTooLong p)
          else mkdir_from p (cur @ [c]) cs d
      | None \<Rightarrow>
          if c = ''..'' then mkdir_from p (butlast cur) cs (d(cur \<mapsto> Dir))
          else if NAME_MAX < utf8_length c then Inl (FileNameTooLong p)
          else mkdir_from p (cur @ [c]) cs (d(cur \<mapsto> Dir)))"

definition mkdir_parents :: "path \<Rightarrow> filesystem \<Rightarrow> os_error + filesystem" where
  "mkdir_parents p d =
     (case check_path p of Some e \<Rightarrow> Inl e | None \<Rightarrow> mkdir_from p [] p d)"

section \<open>Floating point\<close>

text \<open>
  A double with a 53-bit significand, away from overflow and the subnormal range.
  \<open>round_53\<close> rounds a positive integer to 53 significant bits, ties to even; rounding
  a dyadic rational \<open>n / 2 ^ k\<close> rounds its numerator, since scaling by a power of two
  does not change the significand. Every product of two doubles is such a rational.
\<close>

function bit_length :: "int \<Rightarrow> nat" where
  "bit_length n = (if n \<le> 0 then 0 else Suc (bit_length (n div 2)))"
  by pat_completeness auto
termination
  by (relation "measure nat") auto

declare bit_length.simps [simp del]

definition round_53 :: "int \<Rightarrow> int" where
  "round_53 n =
     (let b = bit_length n
      in if b \<le> 53 then n
         else (let s = b - 53; q = n div 2 ^ s; r = n mod 2 ^ s; h = 2 ^ (s - 1)
               in (if h < r \<or> (r = h \<and> odd q) then q + 1 else q) * 2 ^ s))"

definition float_round :: "rat \<Rightarrow> pyfloat" where
  "float_round x =
     (let (n, d) = quotient_of \<bar>x\<bar>
      in sgn x * (of_int (round_53 n) / of_int d))"

definition float_of_nat :: "nat \<Rightarrow> pyfloat" where
  "float_of_nat n = float_round (of_nat n)"

definition float_mul :: "pyfloat \<Rightarrow> pyfloat \<Rightarrow> pyfloat" where
  "float_mul x y = float_round (x * y)"

text \<open>The literal \<^verbatim>\<open>0.1\<close> is the double \<open>0x1.999999999999ap-4\<close>.\<close>

definition float_0_1 :: pyfloat where
  "float_0_1 = 3602879701896397 / 36028797018963968"

section \<open>Utility functions\<close>

text \<open>
  \<^verbatim>\<open>get_audio_duration\<close> returns the placeholder \<^verbatim>\<open>10.0\<close>; nothing in its \<^verbatim>\<open>try\<close> block
  can raise, so the handler that returns \<^verbatim>\<open>None\<close> is never entered.
\<close>

definition get_audio_duration :: "path \<Rightarrow> pyfloat option" where
  "get_audio_duration file_path = Some 10"

definition valid_types :: "string list" where
  "valid_types = [''audio/wav'', ''audio/mpeg'', ''audio/mp3'', ''audio/ogg'', ''audio/flac'']"

definition validate_audio_file :: "UploadFile \<Rightarrow> bool" where
  "validate_audio_file file =
     (case up_content_type file of
        None \<Rightarrow> False
      | Some t \<Rightarrow> if t = [] then False else t \<in> set valid_types)"

text \<open>
  \<open>uuid\<close> is the value of \<^verbatim>\<open>str(uuid.uuid4())\<close> and \<open>now\<close> that of
  \<^verbatim>\<open>datetime.now().isoformat()\<close> in this call.
\<close>

definition generate_synthesis_audio ::
  "path \<Rightarrow> string \<Rightarrow> string \<Rightarrow> string \<Rightarrow> string \<Rightarrow> pyfloat \<Rightarrow> pyfloat \<Rightarrow> filesystem
     \<Rightarrow> os_error + (path \<times> filesystem)" where
  "generate_synthesis_audio base uuid now text voice_id speed pitch d =
     (let synthesis_id = uuid;
          output_file = path_join (AUDIO_DIR base) (''synthesis_'' @ synthesis_id @ ''.txt'');
          content = Placeholder synthesis_id text voice_id speed pitch now
      in case write_file d output_file content of
           Inl e \<Rightarrow> Inl e
         | Inr d' \<Rightarrow> Inr (output_file, d'))"

section \<open>Voice management endpoints\<close>

definition voice_not_found :: "string \<Rightarrow> http_error" where
  "voice_not_found voice_id =
     HTTPException HTTP_404_NOT_FOUND (''Voice with ID '' @ quote voice_id @ '' not found'')"

definition get_voices :: "state \<Rightarrow> Voice list" where
  "get_voices st = map snd (voices_db st)"

definition get_voice :: "string \<Rightarrow> state \<Rightarrow> http_error + Voice" where
  "get_voice voice_id st =
     (case map_of (voices_db st) voice_id of
        None \<Rightarrow> Inl (voice_not_found voice_id)
      | Some voice \<Rightarrow> Inr voice)"

text \<open>
  \<^verbatim>\<open>upload_voice\<close>. An \<^verbatim>\<open>HTTPException\<close> raised in the \<^verbatim>\<open>try\<close> block passes through; any
  other exception becomes status 500. In both cases the handler has not yet touched
  \<^verbatim>\<open>voices_db\<close>.
\<close>

definition file_extension_of :: "UploadFile \<Rightarrow> string" where
  "file_extension_of file =
     (let original_filename =
            (case up_filename file of
               None \<Rightarrow> ''audio.wav''
             | Some f \<Rightarrow> if f = [] then ''audio.wav'' else f);
          file_extension = lower (path_suffix (path_parts original_filename))
      in if file_extension = [] then ''.wav'' else file_extension)"

definition upload_voice ::
  "path \<Rightarrow> string \<Rightarrow> string \<Rightarrow> UploadFile \<Rightarrow> string \<Rightarrow> string \<Rightarrow> string \<Rightarrow> state
     \<Rightarrow> (http_error + Voice) \<times> state" where
  "upload_voice base uuid now file name description language st =
     (if \<not> validate_audio_file file
      then (Inl (HTTPException HTTP_400_BAD_REQUEST
                   ''Invalid audio file. Supported formats: WAV, MP3, OGG, FLAC''), st)
      else
        (let voice_id = uuid;
             file_extension = file_extension_of file;
             voice_file_path = path_join (VOICES_DIR base) (voice_id @ file_extension)
         in case write_file (disk st) voice_file_path (Uploaded (up_bytes file)) of
              Inl e \<Rightarrow>
                (Inl (HTTPException HTTP_500_INTERNAL_SERVER_ERROR
                        (''Failed to upload voice: '' @ str_os_error e)), st)
            | Inr d' \<Rightarrow>
                (let duration = get_audio_duration voice_file_path;
                     voice = \<lparr>v_id = voice_id, v_name = name, v_description = description,
                              v_language = language, v_created_at = now,
                              v_file_path = Some voice_file_path, v_duration = duration,
                              v_sample_rate = Some 22050\<rparr>
                 in (Inr voice,
                     st\<lparr>voices_db := AList.update voice_id voice (voices_db st),
                        disk := d'\<rparr>))))"

text \<open>
  \<^verbatim>\<open>delete_voice\<close>. The file is removed before the record; when \<^verbatim>\<open>exists\<close> or
  \<^verbatim>\<open>unlink\<close> raises, the handler answers 500 and the record stays.
\<close>

definition delete_voice :: "string \<Rightarrow> state \<Rightarrow> (http_error + string) \<times> state" where
  "delete_voice voice_id st =
     (case map_of (voices_db st) voice_id of
        None \<Rightarrow> (Inl (voice_not_found voice_id), st)
      | Some voice \<Rightarrow>
          (case (case v_file_path voice of
                   None \<Rightarrow> Inr (disk st)
                 | Some file_path \<Rightarrow>
                     (case path_exists (disk st) file_path of
                        Inl e \<Rightarrow> Inl e
                      | Inr True \<Rightarrow> unlink (disk st) file_path
                      | Inr False \<Rightarrow> Inr (disk st))) of
             Inl e \<Rightarrow>
               (Inl (HTTPException HTTP_500_INTERNAL_SERVER_ERROR
                       (''Failed to delete voice: '' @ str_os_error e)), st)
           | Inr d' \<Rightarrow>
               (Inr (''Voice '' @ quote (v_name voice) @ '' deleted successfully''),
                st\<lparr>voices_db := AList.delete voice_id (voices_db st), disk := d'\<rparr>)))"

section \<open>Speech synthesis endpoints\<close>

text \<open>
  \<^verbatim>\<open>synthesize_speech\<close> draws two ids and two timestamps: \<open>file_uuid\<close> and \<open>file_now\<close>
  inside \<^verbatim>\<open>generate_synthesis_audio\<close>, then \<open>job_uuid\<close> and \<open>job_now\<close> for the response.
\<close>

definition synthesize_speech ::
  "path \<Rightarrow> string \<Rightarrow> string \<Rightarrow> string \<Rightarrow> string \<Rightarrow> SynthesisRequest \<Rightarrow> state
     \<Rightarrow> (http_error + SynthesisResponse) \<times> state" where
  "synthesize_speech base file_uuid file_now job_uuid job_now request st =
     (if map_of (voices_db st) (req_voice_id request) = None
      then (Inl (voice_not_found (req_voice_id request)), st)
      else
        (case generate_synthesis_audio base file_uuid file_now (req_text request)
                (req_voice_id request) (req_speed request) (req_pitch request) (disk st) of
           Inl e \<Rightarrow>
             (Inl (HTTPException HTTP_500_INTERNAL_SERVER_ERROR
                     (''Failed to synthesize speech: '' @ str_os_error e)), st)
         | Inr (audio_file, d') \<Rightarrow>
             (let synthesis_id = job_uuid;
                  synthesis_response =
                    \<lparr>s_id = synthesis_id,
                     s_audio_url = ''/audio/'' @ path_name audio_file,
                     s_duration =
                       Some (float_mul (float_of_nat (length (req_text request))) float_0_1),
                     s_voice_id = req_voice_id request,
                     s_text = req_text request,
                     s_created_at = job_now\<rparr>
              in (Inr synthesis_response,
                  st\<lparr>synthesis_cache :=
                        AList.update synthesis_id synthesis_response (synthesis_cache st),
                     disk := d'\<rparr>))))"

definition get_synthesis :: "string \<Rightarrow> state \<Rightarrow> http_error + SynthesisResponse" where
  "get_synthesis synthesis_id st =
     (case map_of (synthesis_cache st) synthesis_id of
        None \<Rightarrow>
          Inl (HTTPException HTTP_404_NOT_FOUND
                 (''Synthesis with ID '' @ quote synthesis_id @ '' not found''))
      | Some r \<Rightarrow> Inr r)"

definition get_all_synthesis :: "state \<Rightarrow> SynthesisResponse list" where
  "get_all_synthesis st = map snd (synthesis_cache st)"

text \<open>
  The request body of \<^verbatim>\<open>POST /synthesize\<close> before validation: a field is absent or
  holds a value of its type. A number arrives as the JSON parser delivers it: a finite
  double, an infinity (which is also what a literal beyond the range of a double, such as
  \<^verbatim>\<open>1e400\<close>, becomes) or NaN. FastAPI builds the \<^verbatim>\<open>SynthesisRequest\<close> from the body,
  checking the constraints of the \<^verbatim>\<open>Field\<close> declarations, and does not call the handler
  when that fails.
\<close>

datatype json_number = Finite pyfloat | PosInf | NegInf | NaN

record synthesis_body =
  body_text :: "string option"
  body_voice_id :: "string option"
  body_speed :: "json_number option"
  body_pitch :: "json_number option"

text \<open>
  Each check gives the validated value or the location of the error.
  \<^verbatim>\<open>min_length=1, max_length=5000\<close> count characters; \<^verbatim>\<open>ge=0.5, le=2.0\<close> are
  floating-point comparisons, which an infinity fails on one side and NaN on both; a
  missing \<^verbatim>\<open>speed\<close> or \<^verbatim>\<open>pitch\<close> takes the default \<^verbatim>\<open>1.0\<close>.
\<close>

definition check_text :: "string option \<Rightarrow> string list + string" where
  "check_text t =
     (case t of
        None \<Rightarrow> Inl [''text'']
      | Some s \<Rightarrow> if length s < 1 \<or> 5000 < length s then Inl [''text''] else Inr s)"

definition check_voice_id :: "string option \<Rightarrow> string list + string" where
  "check_voice_id v = (case v of None \<Rightarrow> Inl [''voice_id''] | Some s \<Rightarrow> Inr s)"

definition check_multiplier :: "string \<Rightarrow> json_number option \<Rightarrow> string list + pyfloat" where
  "check_multiplier field x =
     (case x of
        None \<Rightarrow> Inr 1
      | Some (Finite f) \<Rightarrow> if f < 1 / 2 \<or> 2 < f then Inl [field] else Inr f
      | Some PosInf \<Rightarrow> Inl [field]
      | Some NegInf \<Rightarrow> Inl [field]
      | Some NaN \<Rightarrow> Inl [field])"

definition errors_of :: "string list + 'a \<Rightarrow> string list" where
  "errors_of r = (case r of Inl locs \<Rightarrow> locs | Inr v \<Rightarrow> [])"

definition validate_SynthesisRequest :: "synthesis_body \<Rightarrow> string list + SynthesisRequest" where
  "validate_SynthesisRequest body =
     (let t = check_text (body_text body);
          v = check_voice_id (body_voice_id body);
          s = check_multiplier ''speed'' (body_speed body);
          p = check_multiplier ''pitch'' (body_pitch body)
      in case (t, v, s, p) of
           (Inr text, Inr voice_id, Inr speed, Inr pitch) \<Rightarrow>
             Inr \<lparr>req_text = text, req_voice_id = voice_id, req_speed = speed,
                  req_pitch = pitch\<rparr>
         | _ \<Rightarrow> Inl (errors_of t @ errors_of v @ errors_of s @ errors_of p))"

definition is_finite :: "json_number option \<Rightarrow> bool" where
  "is_finite x =
     (case x of
        None \<Rightarrow> True
      | Some (Finite f) \<Rightarrow> True
      | Some PosInf \<Rightarrow> False
      | Some NegInf \<Rightarrow> False
      | Some NaN \<Rightarrow> False)"

text \<open>
  The endpoint. For a failed validation FastAPI answers 422 with a JSON body that lists
  the errors, each with the input it refers to. An infinity or NaN among these inputs
  cannot be written as JSON: rendering the body raises, and the application's
  \<^verbatim>\<open>general_exception_handler\<close> answers 500 instead.
\<close>

definition post_synthesize ::
  "path \<Rightarrow> string \<Rightarrow> string \<Rightarrow> string \<Rightarrow> string \<Rightarrow> synthesis_body \<Rightarrow> state
     \<Rightarrow> (http_error + SynthesisResponse) \<times> state" where
  "post_synthesize base file_uuid file_now job_uuid job_now body st =
     (case validate_SynthesisRequest body of
        Inl locs \<Rightarrow>
          if is_finite (body_speed body) \<and> is_finite (body_pitch body)
          then (Inl (RequestValidationError locs), st)
          else (Inl InternalServerError, st)
      | Inr request \<Rightarrow> synthesize_speech base file_uuid file_now job_uuid job_now request st)"

section \<open>Audio file serving\<close>

record FileResponse =
  fr_path :: path
  fr_media_type :: string
  fr_filename :: string

definition media_types :: "(string \<times> string) list" where
  "media_types =
     [(''.wav'', ''audio/wav''), (''.mp3'', ''audio/mpeg''), (''.ogg'', ''audio/ogg''),
      (''.flac'', ''audio/flac''), (''.txt'', ''text/plain'')]"

text \<open>
  \<^verbatim>\<open>serve_audio\<close> joins the directory and the request's file name and tests the result
  with \<^verbatim>\<open>exists()\<close>; when that raises, the handler answers 500.
  \<open>serve_audio_path\<close> is the handler's local \<^verbatim>\<open>file_path\<close>. The result is the
  \<^verbatim>\<open>FileResponse\<close> that the handler returns; sending the file comes after it.
\<close>

definition serve_audio_path :: "path \<Rightarrow> string \<Rightarrow> path" where
  "serve_audio_path base filename = path_join (AUDIO_DIR base) filename"

definition serve_audio :: "path \<Rightarrow> string \<Rightarrow> state \<Rightarrow> http_error + FileResponse" where
  "serve_audio base filename st =
     (let file_path = serve_audio_path base filename
      in case path_exists (disk st) file_path of
           Inl e \<Rightarrow>
             Inl (HTTPException HTTP_500_INTERNAL_SERVER_ERROR
                    (''Failed to serve audio file: '' @ str_os_error e))
         | Inr False \<Rightarrow> Inl (HTTPException HTTP_404_NOT_FOUND ''Audio file not found'')
         | Inr True \<Rightarrow>
             (let extension = lower (path_suffix file_path);
                  media_type = (case map_of media_types extension of
                                  None \<Rightarrow> ''application/octet-stream''
                                | Some t \<Rightarrow> t)
              in Inr \<lparr>fr_path = file_path, fr_media_type = media_type,
                      fr_filename = filename\<rparr>))"

section \<open>Initialization\<close>

text \<open>Importing the module creates the three storage directories.\<close>

definition ensure_directories :: "path \<Rightarrow> filesystem \<Rightarrow> os_error + filesystem" where
  "ensure_directories base d =
     (case mkdir_parents (VOICES_DIR base) d of
        Inl e \<Rightarrow> Inl e
      | Inr d1 \<Rightarrow>
          (case mkdir_parents (AUDIO_DIR base) d1 of
             Inl e \<Rightarrow> Inl e
           | Inr d2 \<Rightarrow> mkdir_parents (TEMP_DIR base) d2))"

definition default_voice :: "string \<Rightarrow> Voice" where
  "default_voice now =
     \<lparr>v_id = ''default'', v_name = ''Default Voice'',
      v_description = ''Built-in default voice for testing'', v_language = ''en'',
      v_created_at = now, v_file_path = None, v_duration = None,
      v_sample_rate = Some 22050\<rparr>"

definition startup_event :: "string \<Rightarrow> state \<Rightarrow> state" where
  "startup_event now st =
     st\<lparr>voices_db := AList.update ''default'' (default_voice now) (voices_db st)\<rparr>"

text \<open>
  The state in which the first request is served when the process starts on a disk
  \<open>d\<close>: empty dictionaries, the directories created, the default voice registered.
  \<open>None\<close> when creating the directories raises and the module fails to load.
\<close>

definition boot :: "path \<Rightarrow> string \<Rightarrow> filesystem \<Rightarrow> state option" where
  "boot base now d =
     (case ensure_directories base d of
        Inl e \<Rightarrow> None
      | Inr d' \<Rightarrow>
          Some (startup_event now \<lparr>voices_db = [], synthesis_cache = [], disk = d'\<rparr>))"

section \<open>Identifiers and well-formed states\<close>

text \<open>
  \<^verbatim>\<open>str(uuid.uuid4())\<close> has 36 characters, each a lower-case hexadecimal digit or a
  hyphen.
\<close>

definition is_uuid_str :: "string \<Rightarrow> bool" where
  "is_uuid_str u = (length u = 36 \<and> set u \<subseteq> set ''0123456789abcdef-'')"

text \<open>\<open>p\<close> lies below the directory \<open>dir\<close> and is not \<open>dir\<close> itself.\<close>

definition strictly_within :: "path \<Rightarrow> path \<Rightarrow> bool" where
  "strictly_within dir p = (length dir < length p \<and> take (length dir) p = dir)"

text \<open>
  The states the service runs in. The install directory is a resolved path; the voices
  and audio directories exist and hold no subdirectories; the keys of each dictionary are
  distinct and every record is stored under its own id; a voice's file, if it has one,
  sits directly in the voices directory, at a path that the operating system accepts
  (\<^verbatim>\<open>upload_voice\<close> records a path only after it has written the file there).
  \<open>os_accepts\<close> says that a path has no null character, fewer than \<open>PATH_MAX\<close> bytes
  and no component of more than \<open>NAME_MAX\<close> bytes.
\<close>

definition os_accepts :: "path \<Rightarrow> bool" where
  "os_accepts p = (check_path p = None \<and> (\<forall>c \<in> set p. utf8_length c \<le> NAME_MAX))"

definition storage_ok :: "path \<Rightarrow> filesystem \<Rightarrow> bool" where
  "storage_ok base d =
     (''..'' \<notin> set base
      \<and> d (VOICES_DIR base) = Some Dir \<and> d (AUDIO_DIR base) = Some Dir
      \<and> (\<forall>n. d (VOICES_DIR base @ [n]) \<noteq> Some Dir)
      \<and> (\<forall>n. d (AUDIO_DIR base @ [n]) \<noteq> Some Dir))"

definition registry_ok :: "path \<Rightarrow> (string \<times> Voice) list \<Rightarrow> bool" where
  "registry_ok base db =
     (distinct (map fst db)
      \<and> (\<forall>(k, v) \<in> set db.
            v_id v = k
            \<and> (\<forall>p. v_file_path v = Some p \<longrightarrow>
                   p \<noteq> [] \<and> butlast p = VOICES_DIR base \<and> last p \<noteq> ''..''
                   \<and> os_accepts p)))"

definition jobs_ok :: "(string \<times> SynthesisResponse) list \<Rightarrow> bool" where
  "jobs_ok cache = (distinct (map fst cache) \<and> (\<forall>(k, r) \<in> set cache. s_id r = k))"

definition wf_state :: "path \<Rightarrow> state \<Rightarrow> bool" where
  "wf_state base st =
     (storage_ok base (disk st) \<and> registry_ok base (voices_db st)
      \<and> jobs_ok (synthesis_cache st))"

section \<open>A running example\<close>

text \<open>
  The service installed in \<^verbatim>\<open>/srv/backend\<close>, just after start-up on a disk that holds
  nothing but the root directory.
\<close>

definition example_base :: path where
  "example_base = [''srv'', ''backend'']"

definition example_state :: state where
  "example_state =
     \<lparr>voices_db = [(''default'', default_voice ''2024-05-01T09:00:00'')],
      synthesis_cache = [],
      disk = [[] \<mapsto> Dir, [''srv''] \<mapsto> Dir, [''srv'', ''backend''] \<mapsto> Dir,
              [''srv'', ''backend'', ''storage''] \<mapsto> Dir,
              [''srv'', ''backend'', ''storage'', ''voices''] \<mapsto> Dir,
              [''srv'', ''backend'', ''storage'', ''audio''] \<mapsto> Dir,
              [''srv'', ''backend'', ''storage'', ''temp''] \<mapsto> Dir]\<rparr>"

definition example_request :: SynthesisRequest where
  "example_request = \<lparr>req_text = ''hello'', req_voice_id = ''default'', req_speed = 1,
                       req_pitch = 1\<rparr>"

definition example_job :: SynthesisResponse where
  "example_job =
     \<lparr>s_id = ''0b9d3c6e-2f47-4d8a-9c15-6a7e8f901b22'',
      s_audio_url = ''/audio/synthesis_7f0c5a52-91d4-4c1e-8a43-5b1f0e6d2a10.txt'',
      s_duration = Some (1 / 2), s_voice_id = ''default'', s_text = ''hello'',
      s_created_at = ''2024-05-01T09:30:01''\<rparr>"

definition example_upload :: UploadFile where
  "example_upload = \<lparr>up_filename = Some ''a.wav'', up_content_type = Some ''audio/wav'',
                      up_bytes = ''RIFF''\<rparr>"

definition example_voice :: Voice where
  "example_voice =
     \<lparr>v_id = ''3d6f0a1e-5b7c-4e2d-9f80-1a2b3c4d5e6f'', v_name = ''Custom Voice'',
      v_description = [], v_language = ''en'', v_created_at = ''2024-05-01T09:15:00'',
      v_file_path = Some [''srv'', ''backend'', ''storage'', ''voices'',
                          ''3d6f0a1e-5b7c-4e2d-9f80-1a2b3c4d5e6f.wav''],
      v_duration = Some 10, v_sample_rate = Some 22050\<rparr>"

definition example_uploaded :: state where
  "example_uploaded =
     snd (upload_voice example_base ''3d6f0a1e-5b7c-4e2d-9f80-1a2b3c4d5e6f''
            ''2024-05-01T09:15:00'' example_upload ''Custom Voice'' [] ''en'' example_state)"

section \<open>Paths and file names\<close>

lemma split_slash_nonempty: "split_slash s \<noteq> []"
  by (induction s) (auto split: list.splits)

lemma split_slash_no_slash: "CHR ''/'' \<notin> set s \<Longrightarrow> split_slash s = [s]"
  by (induction s) auto

lemma split_slash_parts: "w \<in> set (split_slash s) \<Longrightarrow> CHR ''/'' \<notin> set w"
  by (induction s arbitrary: w) (auto split: if_splits list.splits)

lemma path_parts_no_slash: "w \<in> set (path_parts s) \<Longrightarrow> CHR ''/'' \<notin> set w"
  by (auto simp: path_parts_def dest: split_slash_parts)

lemma path_parts_single:
  "CHR ''/'' \<notin> set s \<Longrightarrow> s \<noteq> [] \<Longrightarrow> s \<noteq> ''.'' \<Longrightarrow> path_parts s = [s]"
  by (simp add: path_parts_def split_slash_no_slash)

lemma path_join_single:
  "CHR ''/'' \<notin> set s \<Longrightarrow> s \<noteq> [] \<Longrightarrow> s \<noteq> ''.'' \<Longrightarrow> path_join d s = d @ [s]"
  by (cases s) (auto simp: path_join_def is_absolute_def path_parts_single)

lemma utf8_length_append: "utf8_length (a @ b) = utf8_length a + utf8_length b"
  by (simp add: utf8_length_def)

lemma utf8_length_Nil: "utf8_length [] = 0"
  by (simp add: utf8_length_def)

lemma utf8_length_Cons:
  "utf8_length (c # s) = (if (of_char c :: nat) < 128 then 1 else 2) + utf8_length s"
  by (simp add: utf8_length_def)

lemma utf8_length_replicate:
  "utf8_length (replicate n c) = n * (if (of_char c :: nat) < 128 then 1 else 2)"
  by (induction n) (simp_all add: utf8_length_def)

lemma utf8_length_lower: "length s \<le> utf8_length s"
  by (induction s) (simp_all add: utf8_length_def)

lemma utf8_length_ascii:
  "\<forall>c \<in> set s. (of_char c :: nat) < 128 \<Longrightarrow> utf8_length s = length s"
  by (induction s) (simp_all add: utf8_length_def)

text \<open>
  A path without \<^verbatim>\<open>..\<close> whose components the file system accepts resolves to itself,
  whatever the disk holds; and a path without \<^verbatim>\<open>..\<close> resolves only if it is accepted.
\<close>

lemma walk_plain:
  "''..'' \<notin> set cs \<Longrightarrow> \<forall>c \<in> set cs. utf8_length c \<le> NAME_MAX
     \<Longrightarrow> walk d p cur cs = Inr (cur @ cs)"
  by (induction cs arbitrary: cur) auto

lemma walk_success:
  "''..'' \<notin> set cs \<Longrightarrow> walk d p cur cs = Inr q
     \<Longrightarrow> q = cur @ cs \<and> (\<forall>c \<in> set cs. utf8_length c \<le> NAME_MAX)"
proof (induction cs arbitrary: cur)
  case Nil
  then show ?case by simp
next
  case (Cons c cs)
  from Cons.prems have plain: "c \<noteq> ''..''" "''..'' \<notin> set cs"
    by auto
  from Cons.prems plain have short: "utf8_length c \<le> NAME_MAX"
    by (auto split: if_splits option.splits node.splits)
  with Cons.prems plain have "walk d p (cur @ [c]) cs = Inr q"
    by simp
  from Cons.IH [OF plain(2) this] short show ?case
    by simp
qed

lemma walk_append:
  "walk d p cur (cs @ cs') = (case walk d p cur cs of Inl e \<Rightarrow> Inl e | Inr q \<Rightarrow> walk d p q cs')"
  by (induction cs arbitrary: cur) (auto split: option.splits node.splits)

lemma resolve_plain: "''..'' \<notin> set p \<Longrightarrow> os_accepts p \<Longrightarrow> resolve d p = Inr p"
  by (simp add: resolve_def os_accepts_def walk_plain)

lemma resolve_success: "''..'' \<notin> set p \<Longrightarrow> resolve d p = Inr q \<Longrightarrow> q = p \<and> os_accepts p"
  using walk_success [of p d p "[]" q]
  by (auto simp: resolve_def os_accepts_def split: option.splits)

lemma resolve_name_too_long:
  assumes "''..'' \<notin> set dir" and "\<forall>c \<in> set dir. utf8_length c \<le> NAME_MAX"
    and "d dir = Some Dir" and "NAME_MAX < utf8_length n" and "check_path (dir @ [n]) = None"
  shows "resolve d (dir @ [n]) = Inl (FileNameTooLong (dir @ [n]))"
proof -
  from assms(4) have "n \<noteq> ''..''"
    by (auto simp: utf8_length_def NAME_MAX_def)
  with assms show ?thesis
    by (simp add: resolve_def walk_append walk_plain)
qed

lemma stat_plain:
  "''..'' \<notin> set p \<Longrightarrow> os_accepts p \<Longrightarrow>
     stat d p = (case d p of
                   Some n \<Rightarrow> Inr n
                 | None \<Rightarrow> (case d (butlast p) of
                              Some (File x) \<Rightarrow> Inl (NotADirectoryError p)
                            | _ \<Rightarrow> Inl (FileNotFoundError p)))"
  by (simp add: stat_def resolve_plain)

text \<open>For such a path, \<^verbatim>\<open>exists()\<close> says whether the disk holds something there.\<close>

lemma path_exists_plain:
  "''..'' \<notin> set p \<Longrightarrow> os_accepts p \<Longrightarrow> path_exists d p = Inr (d p \<noteq> None)"
  by (auto simp: path_exists_def stat_plain split: option.splits node.splits)

lemma path_exists_name_too_long:
  assumes "''..'' \<notin> set dir" and "\<forall>c \<in> set dir. utf8_length c \<le> NAME_MAX"
    and "d dir = Some Dir" and "NAME_MAX < utf8_length n" and "check_path (dir @ [n]) = None"
  shows "path_exists d (dir @ [n]) = Inl (FileNameTooLong (dir @ [n]))"
  using assms by (simp add: path_exists_def stat_def resolve_name_too_long)

lemma write_file_child:
  assumes "d dir = Some Dir" and "d (dir @ [n]) \<noteq> Some Dir"
    and "''..'' \<notin> set (dir @ [n])" and "os_accepts (dir @ [n])"
  shows "write_file d (dir @ [n]) c = Inr (d(dir @ [n] \<mapsto> File c))"
  using assms(1,2) by (simp add: write_file_def resolve_plain [OF assms(3,4)])

lemma write_file_refused:
  assumes "''..'' \<notin> set p" and "\<not> os_accepts p"
  shows "\<exists>e. write_file d p c = Inl e"
proof (cases "resolve d p")
  case (Inl e)
  then show ?thesis
    by (simp add: write_file_def)
next
  case (Inr q)
  with assms show ?thesis
    using resolve_success by blast
qed

lemma write_file_name_too_long:
  assumes "''..'' \<notin> set dir" and "\<forall>c \<in> set dir. utf8_length c \<le> NAME_MAX"
    and "d dir = Some Dir" and "NAME_MAX < utf8_length n" and "check_path (dir @ [n]) = None"
  shows "write_file d (dir @ [n]) c = Inl (FileNameTooLong (dir @ [n]))"
  using assms by (simp add: write_file_def resolve_name_too_long)

lemma path_suffix_chars: "set (path_suffix p) \<subseteq> set (path_name p)"
  by (auto simp: path_suffix_def Let_def dest: in_set_dropD)

lemma path_name_member: "p \<noteq> [] \<Longrightarrow> path_name p \<in> set p"
  by (simp add: path_name_def)

lemma lower_char_slash: "lower_char c = CHR ''/'' \<longleftrightarrow> c = CHR ''/''"
proof -
  have "of_char (lower_char c) = (47 :: nat) \<longleftrightarrow> of_char c = (47 :: nat)"
    by (auto simp: lower_char_def Let_def)
  moreover have "of_char CHR ''/'' = (47 :: nat)"
    by simp
  ultimately show ?thesis
    by (metis of_char_eq_iff)
qed

lemma lower_no_slash: "CHR ''/'' \<in> set (lower s) \<longleftrightarrow> CHR ''/'' \<in> set s"
proof
  assume "CHR ''/'' \<in> set (lower s)"
  then obtain c where "c \<in> set s" and "lower_char c = CHR ''/''"
    by (auto simp: lower_def)
  then show "CHR ''/'' \<in> set s"
    by (simp add: lower_char_slash)
next
  assume "CHR ''/'' \<in> set s"
  moreover have "lower_char CHR ''/'' = CHR ''/''"
    by (simp add: lower_char_slash)
  ultimately show "CHR ''/'' \<in> set (lower s)"
    by (force simp: lower_def)
qed

lemma path_suffix_no_slash: "CHR ''/'' \<notin> set (path_suffix (path_parts s))"
proof (cases "path_parts s = []")
  case True
  then show ?thesis by (simp add: path_suffix_def path_name_def)
next
  case False
  then have "CHR ''/'' \<notin> set (path_name (path_parts s))"
    using path_name_member path_parts_no_slash by blast
  then show ?thesis
    using path_suffix_chars by blast
qed

lemma file_extension_no_slash: "CHR ''/'' \<notin> set (file_extension_of file)"
  by (simp add: file_extension_of_def Let_def lower_no_slash path_suffix_no_slash)

lemma file_extension_nonempty: "file_extension_of file \<noteq> []"
  by (simp add: file_extension_of_def Let_def)

lemma storage_dirs_plain:
  "''..'' \<notin> set base \<Longrightarrow> n \<noteq> ''..'' \<Longrightarrow> ''..'' \<notin> set (VOICES_DIR base @ [n])"
  "''..'' \<notin> set base \<Longrightarrow> n \<noteq> ''..'' \<Longrightarrow> ''..'' \<notin> set (AUDIO_DIR base @ [n])"
  by (auto simp: VOICES_DIR_def AUDIO_DIR_def)

lemma os_accepts_example:
  "utf8_length n \<le> 255 \<Longrightarrow> CHR 0x00 \<notin> set n \<Longrightarrow>
   os_accepts ([''srv'', ''backend'', ''storage'', ''voices''] @ [n])"
  "utf8_length n \<le> 255 \<Longrightarrow> CHR 0x00 \<notin> set n \<Longrightarrow>
   os_accepts ([''srv'', ''backend'', ''storage'', ''audio''] @ [n])"
  by (simp_all add: os_accepts_def check_path_def str_path_def utf8_length_def NAME_MAX_def
      PATH_MAX_def)

lemma check_path_example:
  "utf8_length n < 4000 \<Longrightarrow> CHR 0x00 \<notin> set n \<Longrightarrow>
   check_path ([''srv'', ''backend'', ''storage'', ''voices''] @ [n]) = None"
  "utf8_length n < 4000 \<Longrightarrow> CHR 0x00 \<notin> set n \<Longrightarrow>
   check_path ([''srv'', ''backend'', ''storage'', ''audio''] @ [n]) = None"
  by (simp_all add: check_path_def str_path_def utf8_length_def PATH_MAX_def)

lemma rfind_dot_none: "CHR ''.'' \<notin> set e \<Longrightarrow> rfind_dot e = - 1"
  by (induction e) (auto simp: Let_def)

lemma rfind_dot_last:
  "CHR ''.'' \<notin> set e \<Longrightarrow> rfind_dot (u @ CHR ''.'' # e) = int (length u)"
  by (induction u) (simp_all add: Let_def rfind_dot_none)

lemma path_suffix_extension:
  assumes "CHR ''.'' \<notin> set e" and "e \<noteq> []" and "u \<noteq> []"
  shows "path_suffix (d @ [u @ CHR ''.'' # e]) = CHR ''.'' # e"
  using assms by (simp add: path_suffix_def path_name_def rfind_dot_last)

text \<open>No capital letter from \<^verbatim>\<open>A\<close> to \<^verbatim>\<open>Z\<close> is left by \<^verbatim>\<open>lower()\<close>.\<close>

lemma lower_char_not_capital: "\<not> (65 \<le> (of_char (lower_char c) :: nat) \<and> (of_char (lower_char c) :: nat) \<le> 90)"
  by (auto simp: lower_char_def Let_def)

lemma capital_codes:
  "c \<in> set ''ABCDEFGHIJKLMNOPQRSTUVWXYZ'' \<Longrightarrow> 65 \<le> (of_char c :: nat) \<and> (of_char c :: nat) \<le> 90"
  by auto

lemma lower_no_capital: "set (lower s) \<inter> set ''ABCDEFGHIJKLMNOPQRSTUVWXYZ'' = {}"
proof -
  have "c \<notin> set ''ABCDEFGHIJKLMNOPQRSTUVWXYZ''" if "c \<in> set (lower s)" for c
  proof -
    from that obtain c0 where "c = lower_char c0"
      by (auto simp: lower_def)
    then show ?thesis
      using lower_char_not_capital [of c0] capital_codes [of c] by blast
  qed
  then show ?thesis
    by blast
qed

lemma strictly_within_append: "q \<noteq> [] \<Longrightarrow> strictly_within d (d @ q)"
  by (simp add: strictly_within_def)

section \<open>Properties of the synthesis endpoints\<close>

lemma status_voice_not_found: "status_code (voice_not_found v) = 404"
  by (simp add: voice_not_found_def HTTP_404_NOT_FOUND_def)

lemma map_of_None_iff_not_key: "map_of al k = None \<longleftrightarrow> k \<notin> fst ` set al"
  by (simp add: map_of_eq_None_iff)

lemma boot_example:
  "boot example_base ''2024-05-01T09:00:00'' [[] \<mapsto> Dir] = Some example_state"
  by (simp add: boot_def ensure_directories_def mkdir_parents_def check_path_def
      str_path_def utf8_length_def NAME_MAX_def PATH_MAX_def
      VOICES_DIR_def AUDIO_DIR_def TEMP_DIR_def example_base_def example_state_def
      startup_event_def fun_upd_twist)

lemma quotient_of_coprime:
  "coprime n d \<Longrightarrow> 0 < d \<Longrightarrow> quotient_of (of_int n / of_int d) = (n, d)"
  by (simp add: Fract_of_int_quotient [symmetric] quotient_of_Fract Rat.normalize_def Let_def)

lemma bit_length_5: "bit_length 5 = 3"
  by (simp add: bit_length.simps)

lemma bit_length_product: "bit_length 18014398509481985 = 55"
  by (simp add: bit_length.simps)

lemma float_of_nat_5: "float_of_nat 5 = 5"
  by (simp add: float_of_nat_def float_round_def round_53_def bit_length_5)

lemma quotient_of_product:
  "quotient_of (18014398509481985 / 36028797018963968)
     = (18014398509481985, 36028797018963968)"
proof -
  have "coprime (18014398509481985 :: int) 2"
    by (simp add: coprime_right_2_iff_odd)
  then have "coprime (18014398509481985 :: int) (2 ^ 55)"
    by (simp only: coprime_power_right_iff simp_thms)
  moreover have "(2 :: int) ^ 55 = 36028797018963968"
    by simp
  ultimately have "coprime (18014398509481985 :: int) 36028797018963968"
    by (simp only:)
  from quotient_of_coprime [OF this] show ?thesis
    by simp
qed

lemma hello_estimate: "float_mul (float_of_nat (length ''hello'')) float_0_1 = 1 / 2"
proof -
  have "float_mul 5 float_0_1 = float_round (18014398509481985 / 36028797018963968)"
    by (simp add: float_mul_def float_0_1_def)
  also have "\<dots> = 1 / 2"
    by (simp add: float_round_def quotient_of_product round_53_def bit_length_product)
  finally have "float_mul (float_of_nat 5) float_0_1 = 1 / 2"
    by (simp only: float_of_nat_5)
  moreover have "length ''hello'' = 5"
    by simp
  ultimately show ?thesis
    by (simp only:)
qed

lemma hello_estimate_Suc:
  "float_mul (float_of_nat (Suc (Suc (Suc (Suc (Suc 0)))))) float_0_1 = 1 / 2"
  using hello_estimate by simp

lemma example_synthesis:
  "fst (synthesize_speech example_base ''7f0c5a52-91d4-4c1e-8a43-5b1f0e6d2a10''
          ''2024-05-01T09:30:00'' ''0b9d3c6e-2f47-4d8a-9c15-6a7e8f901b22''
          ''2024-05-01T09:30:01'' example_request example_state) = Inr example_job"
proof -
  let ?n = "''synthesis_7f0c5a52-91d4-4c1e-8a43-5b1f0e6d2a10.txt''"
  have "path_join (AUDIO_DIR example_base) ?n = AUDIO_DIR example_base @ [?n]"
    by (rule path_join_single) simp_all
  then have path: "path_join (AUDIO_DIR example_base) ?n
                     = [''srv'', ''backend'', ''storage'', ''audio''] @ [?n]"
    by (simp add: AUDIO_DIR_def example_base_def)
  have "os_accepts ([''srv'', ''backend'', ''storage'', ''audio''] @ [?n])"
    by (rule os_accepts_example) (simp_all add: utf8_length_def)
  then have "write_file (disk example_state) ([''srv'', ''backend'', ''storage'', ''audio''] @ [?n]) c
          = Inr ((disk example_state)
                   ([''srv'', ''backend'', ''storage'', ''audio''] @ [?n] \<mapsto> File c))" for c
    by (intro write_file_child) (simp_all add: example_state_def)
  with path show ?thesis
    by (simp add: synthesize_speech_def generate_synthesis_audio_def example_request_def
        example_job_def path_name_def hello_estimate_Suc Let_def)
      (simp add: example_state_def)
qed

lemma bit_length_bounds:
  "0 < n \<Longrightarrow> 2 ^ (bit_length n - 1) \<le> n \<and> n < 2 ^ bit_length n"
proof (induction n rule: bit_length.induct)
  case (1 n)
  show ?case
  proof (cases "n div 2 = 0")
    case True
    with 1(2) have "n = 1" by linarith
    then show ?thesis
      by (simp add: bit_length.simps [of 1] bit_length.simps [of 0])
  next
    case False
    with 1(2) have pos: "0 < n div 2" by linarith
    with 1 have IH: "2 ^ (bit_length (n div 2) - 1) \<le> n div 2"
      "n div 2 < 2 ^ bit_length (n div 2)"
      by simp_all
    have b: "bit_length n = Suc (bit_length (n div 2))"
      using 1(2) by (simp add: bit_length.simps [of n])
    have "0 < bit_length (n div 2)"
      using pos by (simp add: bit_length.simps [of "n div 2"])
    then obtain k where k: "bit_length (n div 2) = Suc k"
      by (cases "bit_length (n div 2)") auto
    from IH k have "2 * 2 ^ k \<le> 2 * (n div 2)" by simp
    also have "\<dots> \<le> n" by linarith
    finally have lo: "2 ^ (bit_length n - 1) \<le> n"
      by (simp add: b k)
    from IH(2) have "n div 2 + 1 \<le> 2 ^ bit_length (n div 2)" by linarith
    then have "2 * (n div 2) + 2 \<le> 2 * 2 ^ bit_length (n div 2)" by linarith
    moreover have "n \<le> 2 * (n div 2) + 1" by linarith
    ultimately have "n < 2 ^ bit_length n"
      by (simp add: b)
    with lo show ?thesis by simp
  qed
qed

lemma round_53_exact: "0 \<le> n \<Longrightarrow> n < 2 ^ 53 \<Longrightarrow> round_53 n = n"
proof -
  assume n: "0 \<le> n" "n < 2 ^ 53"
  have "bit_length n \<le> 53"
  proof (rule ccontr)
    assume "\<not> bit_length n \<le> 53"
    then have big: "54 \<le> bit_length n" by simp
    then have "0 < n"
      using n(1) by (cases "n = 0") (auto simp: bit_length.simps [of 0])
    from bit_length_bounds [OF this] have "2 ^ (bit_length n - 1) \<le> n" by simp
    moreover have "(2::int) ^ 53 \<le> 2 ^ (bit_length n - 1)"
      using big by (intro power_increasing) simp_all
    ultimately show False using n(2) by linarith
  qed
  then show ?thesis
    by (simp add: round_53_def)
qed

lemma round_53_error:
  assumes "0 < n"
  shows "\<bar>round_53 n - n\<bar> * 2 ^ 53 \<le> n"
proof (cases "bit_length n \<le> 53")
  case True
  then show ?thesis using assms by (simp add: round_53_def)
next
  case False
  define s where "s = bit_length n - 53"
  define q where "q = n div 2 ^ s"
  define r where "r = n mod 2 ^ s"
  define h :: int where "h = 2 ^ (s - 1)"
  from False have s: "0 < s" "bit_length n = s + 53"
    by (simp_all add: s_def)
  then obtain t where t: "s = Suc t" by (cases s) auto
  have hh: "2 * h = 2 ^ s" by (simp add: h_def t)
  have n_eq: "n = q * 2 ^ s + r"
    by (simp only: q_def r_def div_mult_mod_eq)
  have r_bounds: "0 \<le> r" "r < 2 ^ s"
    by (simp_all add: r_def)
  define m where "m = round_53 n"
  have val: "m = (if h < r \<or> (r = h \<and> odd q) then q + 1 else q) * 2 ^ s"
    using False by (simp add: m_def round_53_def Let_def s_def q_def r_def h_def)
  have "\<bar>m - n\<bar> \<le> h"
  proof (cases "h < r \<or> (r = h \<and> odd q)")
    case True
    then have "m - n = 2 ^ s - r"
      by (simp add: val n_eq algebra_simps)
    with True r_bounds hh show ?thesis by auto
  next
    case False
    then have "m - n = - r"
      by (simp add: val n_eq)
    with False r_bounds show ?thesis by auto
  qed
  then have err: "\<bar>round_53 n - n\<bar> \<le> h"
    by (simp add: m_def)
  from bit_length_bounds [OF assms] have "2 ^ (s + 52) \<le> n"
    by (simp add: s add.commute)
  then have "2 ^ 53 * h \<le> n"
    by (simp add: h_def t power_add)
  with err show ?thesis
    by (smt (verit) mult.commute mult_left_mono zero_le_numeral zero_le_power)
qed

lemma float_round_error:
  assumes "0 < x"
  shows "\<bar>float_round x - x\<bar> \<le> x / 2 ^ 53"
proof -
  obtain a c where q: "quotient_of x = (a, c)"
    by (cases "quotient_of x")
  then have c: "0 < c" and x: "x = of_int a / of_int c"
    by (simp_all add: quotient_of_denom_pos quotient_of_div)
  from assms x c have a: "0 < a"
    by (simp add: zero_less_divide_iff)
  from assms q have val: "float_round x = of_int (round_53 a) / of_int c"
    by (simp add: float_round_def)
  have "float_round x - x = of_int (round_53 a - a) / of_int c"
    by (subst val) (simp add: x diff_divide_distrib)
  then have "\<bar>float_round x - x\<bar> = of_int \<bar>round_53 a - a\<bar> / of_int c"
    using c by (simp only: abs_divide of_int_abs)
  also have "\<dots> \<le> (of_int a / 2 ^ 53) / of_int c"
  proof -
    from round_53_error [OF a] have "of_int (\<bar>round_53 a - a\<bar> * 2 ^ 53) \<le> (of_int a :: rat)"
      by (simp only: of_int_le_iff)
    then have "(of_int \<bar>round_53 a - a\<bar> :: rat) \<le> of_int a / 2 ^ 53"
      by (simp add: pos_le_divide_eq)
    with c show ?thesis
      by (intro divide_right_mono) simp_all
  qed
  also have "\<dots> = x / 2 ^ 53"
    by (simp add: x)
  finally show ?thesis .
qed

lemma float_of_nat_exact: "n < 2 ^ 53 \<Longrightarrow> float_of_nat n = of_nat n"
proof -
  assume "n < 2 ^ 53"
  then have "int n < 2 ^ 53"
    by (metis of_nat_less_iff of_nat_numeral of_nat_power)
  then have "round_53 (int n) = int n"
    by (intro round_53_exact) simp_all
  then show ?thesis
    by (cases "n = 0") (simp_all add: float_of_nat_def float_round_def)
qed

lemma duration_estimate_accuracy:
  assumes "0 < n" and "n < 2 ^ 53"
  shows "\<bar>float_mul (float_of_nat n) float_0_1 - of_nat n / 10\<bar> \<le> (of_nat n / 10) / 2 ^ 52"
proof -
  define r :: rat where "r = of_nat n"
  define p where "p = r * float_0_1"
  have r: "0 < r"
    using assms(1) by (simp add: r_def)
  then have "0 < p"
    by (simp add: p_def float_0_1_def)
  define f where "f = float_round p"
  from float_round_error [OF \<open>0 < p\<close>] have "\<bar>f - p\<bar> \<le> p / 2 ^ 53"
    by (simp only: f_def)
  moreover have "p = r * (3602879701896397 / 36028797018963968)"
    by (simp add: p_def float_0_1_def)
  ultimately have "\<bar>f - r * (3602879701896397 / 36028797018963968)\<bar>
                     \<le> r * (3602879701896397 / 36028797018963968) / 2 ^ 53"
    by (simp only:)
  then have "f - r * (3602879701896397 / 36028797018963968)
                 \<le> r * (3602879701896397 / 36028797018963968) / 9007199254740992"
    and "r * (3602879701896397 / 36028797018963968) - f
                 \<le> r * (3602879701896397 / 36028797018963968) / 9007199254740992"
    by (simp_all only: abs_le_iff power_numeral_even power_numeral_odd numeral_times_numeral
        minus_diff_eq) simp_all
  with r have "f - r / 10 \<le> (r / 10) / 4503599627370496"
    and "r / 10 - f \<le> (r / 10) / 4503599627370496"
    by linarith+
  then have "\<bar>f - r / 10\<bar> \<le> (r / 10) / 4503599627370496"
    by (simp only: abs_le_iff minus_diff_eq simp_thms)
  moreover have "(2 :: rat) ^ 52 = 4503599627370496"
    by simp
  ultimately have "\<bar>f - r / 10\<bar> \<le> (r / 10) / 2 ^ 52"
    by (simp only:)
  then have "\<bar>float_round p - r / 10\<bar> \<le> (r / 10) / 2 ^ 52"
    by (simp only: f_def)
  then show ?thesis
    by (simp add: float_mul_def float_of_nat_exact [OF assms(2)] p_def r_def)
qed

lemma duration_estimate_zero: "float_mul (float_of_nat 0) float_0_1 = 0"
  by (simp add: float_mul_def float_of_nat_def float_round_def)

lemma duration_estimate_bound:
  assumes "n < 2 ^ 53"
  shows "\<bar>float_mul (float_of_nat n) float_0_1 - of_nat n / 10\<bar> \<le> (of_nat n / 10) / 2 ^ 52"
proof (cases "n = 0")
  case True
  then show ?thesis
    by (simp add: duration_estimate_zero)
next
  case False
  then have "0 < n" by simp
  then show ?thesis
    using assms by (rule duration_estimate_accuracy)
qed

lemma bit_length_tie: "bit_length 10808639105689191 = 54"
  by (simp add: bit_length.simps)

lemma float_of_nat_3: "float_of_nat 3 = 3"
  using float_of_nat_exact [of 3] by simp

lemma quotient_of_tie:
  "quotient_of (10808639105689191 / 36028797018963968)
     = (10808639105689191, 36028797018963968)"
proof -
  have "coprime (10808639105689191 :: int) 2"
    by (simp add: coprime_right_2_iff_odd)
  then have "coprime (10808639105689191 :: int) (2 ^ 55)"
    by (simp only: coprime_power_right_iff simp_thms)
  moreover have "(2 :: int) ^ 55 = 36028797018963968"
    by simp
  ultimately have "coprime (10808639105689191 :: int) 36028797018963968"
    by (simp only:)
  from quotient_of_coprime [OF this] show ?thesis
    by simp
qed

text \<open>
  Three characters: the exact product lies half-way between two doubles and is rounded
  to the even one, which gives Python's \<^verbatim>\<open>0.30000000000000004\<close>.
\<close>

lemma three_characters_estimate:
  "float_mul (float_of_nat (length ''abc'')) float_0_1
     = 5404319552844596 / 18014398509481984"
proof -
  have "float_mul 3 float_0_1 = float_round (10808639105689191 / 36028797018963968)"
    by (simp add: float_mul_def float_0_1_def)
  also have "\<dots> = 5404319552844596 / 18014398509481984"
    by (simp add: float_round_def quotient_of_tie round_53_def bit_length_tie)
  finally have "float_mul (float_of_nat 3) float_0_1 = 5404319552844596 / 18014398509481984"
    by (simp only: float_of_nat_3)
  moreover have "length ''abc'' = 3"
    by simp
  ultimately show ?thesis
    by (simp only:)
qed

lemma power_of_two_divisor:
  fixes d :: int
  shows "0 < d \<Longrightarrow> d dvd 2 ^ k \<Longrightarrow> \<exists>j. d = 2 ^ j"
proof (induction k arbitrary: d)
  case 0
  then have "d = 1"
    by simp
  then have "d = 2 ^ 0"
    by simp
  then show ?case ..
next
  case (Suc k)
  show ?case
  proof (cases "even d")
    case True
    then obtain d' where d': "d = 2 * d'"
      by (elim evenE)
    with Suc.prems have "0 < d'" and "d' dvd 2 ^ k"
      by simp_all
    then obtain j where "d' = 2 ^ j"
      using Suc.IH by blast
    with d' have "d = 2 ^ Suc j"
      by simp
    then show ?thesis ..
  next
    case False
    then have "coprime d 2"
      by (simp add: coprime_right_2_iff_odd)
    then have "coprime d (2 ^ Suc k)"
      by (simp only: coprime_power_right_iff simp_thms)
    with Suc.prems(2) have "is_unit d"
      using coprime_absorb_left by (metis coprime_self is_unit_gcd  coprime_common_divisor dvd_refl)
    with Suc.prems(1) have "d = 2 ^ 0"
      by simp
    then show ?thesis ..
  qed
qed

text \<open>
  \<open>round_53\<close> rounds correctly: the result has a significand of 53 bits and differs from
  the argument by at most half a unit in the last place.
\<close>

lemma round_53_correct:
  assumes "0 < n"
  shows "\<exists>m a b. 2 ^ 52 \<le> m \<and> m < 2 ^ 53
           \<and> (of_int (round_53 n) :: rat) = of_int m * 2 ^ a / 2 ^ b
           \<and> \<bar>of_int (round_53 n) - of_int n :: rat\<bar> \<le> (2 ^ a / 2 ^ b) / 2"
proof (cases "bit_length n \<le> 53")
  case True
  define b where "b = 53 - bit_length n"
  define m where "m = n * 2 ^ b"
  from bit_length_bounds [OF assms]
  have lo: "2 ^ (bit_length n - 1) \<le> n" and hi: "n < 2 ^ bit_length n"
    by simp_all
  have pos: "0 < bit_length n"
    using assms by (simp add: bit_length.simps [of n])
  have "(2 :: int) ^ 52 = 2 ^ (bit_length n - 1) * 2 ^ b"
    using True pos by (simp add: b_def flip: power_add)
  also have "\<dots> \<le> m"
    unfolding m_def using lo by (intro mult_right_mono) simp_all
  finally have m_lo: "2 ^ 52 \<le> m" .
  have "m < 2 ^ bit_length n * 2 ^ b"
    unfolding m_def using hi by (intro mult_strict_right_mono) simp_all
  also have "\<dots> = 2 ^ 53"
    using True by (simp add: b_def flip: power_add)
  finally have m_hi: "m < 2 ^ 53" .
  have "(of_int (round_53 n) :: rat) = of_int m * 2 ^ 0 / 2 ^ b"
    using True by (simp add: round_53_def m_def)
  moreover have "\<bar>of_int (round_53 n) - of_int n :: rat\<bar> \<le> (2 ^ 0 / 2 ^ b) / 2"
    using True by (simp add: round_53_def)
  ultimately show ?thesis
    using m_lo m_hi by blast
next
  case False
  define s where "s = bit_length n - 53"
  define q where "q = n div 2 ^ s"
  define r where "r = n mod 2 ^ s"
  define h :: int where "h = 2 ^ (s - 1)"
  from False have s: "0 < s" "bit_length n = s + 53"
    by (simp_all add: s_def)
  then obtain t where t: "s = Suc t" by (cases s) auto
  have hh: "2 * h = 2 ^ s" by (simp add: h_def t)
  have n_eq: "n = q * 2 ^ s + r"
    by (simp only: q_def r_def div_mult_mod_eq)
  have r_bounds: "0 \<le> r" "r < 2 ^ s"
    by (simp_all add: r_def)
  from bit_length_bounds [OF assms]
  have lo: "2 ^ (s + 52) \<le> n" and hi: "n < 2 ^ (s + 53)"
    by (simp_all add: s add.commute)
  have q_lo: "2 ^ 52 \<le> q"
  proof -
    have "(2 :: int) ^ 52 = 2 ^ (s + 52) div 2 ^ s"
      by (simp add: power_add)
    also have "\<dots> \<le> n div 2 ^ s"
      using lo by (intro zdiv_mono1) simp_all
    finally show ?thesis
      by (simp add: q_def)
  qed
  have q_hi: "q < 2 ^ 53"
  proof -
    have "n < 2 ^ 53 * 2 ^ s"
      using hi by (simp add: power_add mult.commute)
    moreover have "q * 2 ^ s \<le> n"
      using n_eq r_bounds by linarith
    ultimately have "q * 2 ^ s < 2 ^ 53 * 2 ^ s"
      by linarith
    then show ?thesis
      by (rule mult_right_less_imp_less) simp
  qed
  define m where "m = round_53 n"
  define up where "up \<longleftrightarrow> h < r \<or> (r = h \<and> odd q)"
  have val: "m = (if up then q + 1 else q) * 2 ^ s"
    using False by (simp add: m_def round_53_def Let_def s_def q_def r_def h_def up_def)
  have "\<bar>m - n\<bar> \<le> h"
  proof (cases up)
    case True
    then have "m - n = 2 ^ s - r"
      by (simp add: val n_eq algebra_simps)
    with True r_bounds hh show ?thesis by (auto simp: up_def)
  next
    case False
    then have "m - n = - r"
      by (simp add: val n_eq)
    with False r_bounds show ?thesis by (auto simp: up_def)
  qed
  then have "(of_int \<bar>m - n\<bar> :: rat) \<le> of_int h"
    by (simp only: of_int_le_iff)
  then have err: "\<bar>of_int m - of_int n :: rat\<bar> \<le> of_int h"
    by simp
  have half: "(of_int h :: rat) = 2 ^ s / 2"
    by (simp add: h_def t)
  show ?thesis
  proof (cases "up \<and> q + 1 = 2 ^ 53")
    case False
    define m' where "m' = (if up then q + 1 else q)"
    from False q_lo q_hi have "2 ^ 52 \<le> m'" and "m' < 2 ^ 53"
      by (auto simp: m'_def)
    moreover have "(of_int (round_53 n) :: rat) = of_int m' * 2 ^ s / 2 ^ 0"
      by (simp add: val m'_def flip: m_def)
    moreover have "\<bar>of_int (round_53 n) - of_int n :: rat\<bar> \<le> (2 ^ s / 2 ^ 0) / 2"
      using err half by (simp flip: m_def)
    ultimately show ?thesis
      by blast
  next
    case True
    then have "m = 2 ^ 53 * 2 ^ s"
      by (simp add: val)
    then have "(of_int (round_53 n) :: rat) = of_int (2 ^ 52) * 2 ^ Suc s / 2 ^ 0"
      by (simp flip: m_def)
    moreover have "\<bar>of_int (round_53 n) - of_int n :: rat\<bar> \<le> (2 ^ Suc s / 2 ^ 0) / 2"
    proof -
      have "(2 ^ s / 2 :: rat) \<le> 2 ^ s"
        by simp
      with err half have "\<bar>of_int m - of_int n :: rat\<bar> \<le> 2 ^ s"
        by linarith
      then show ?thesis
        by (simp flip: m_def)
    qed
    moreover have "(2 :: int) ^ 52 \<le> 2 ^ 52" and "(2 :: int) ^ 52 < 2 ^ 53"
      by simp_all
    ultimately show ?thesis
      by blast
  qed
qed

lemma dyadic_quotient:
  assumes "0 < p" and "quotient_of (of_int p / 2 ^ k) = (n, d)"
  shows "0 < n" and "\<exists>j. d = 2 ^ j"
proof -
  from assms(2) have d: "0 < d" and co: "coprime n d"
    and eq: "(of_int p / 2 ^ k :: rat) = of_int n / of_int d"
    by (simp_all add: quotient_of_denom_pos Rat.quotient_of_coprime quotient_of_div)
  from assms(1) have "(0 :: rat) < of_int p / 2 ^ k"
    by simp
  with eq d show "0 < n"
    by (simp add: zero_less_divide_iff)
  from eq d have "(of_int (p * d) :: rat) = of_int (n * 2 ^ k)"
    by (simp add: field_simps)
  then have "p * d = n * 2 ^ k"
    by (simp only: of_int_eq_iff)
  then have "d dvd n * 2 ^ k"
    by (metis dvd_triv_right)
  with co have "d dvd 2 ^ k"
    by (simp add: coprime_dvd_mult_right_iff coprime_commute)
  with d show "\<exists>j. d = 2 ^ j"
    by (rule power_of_two_divisor)
qed

text \<open>
  Rounding a positive dyadic rational gives a double (a significand of 53 bits times a
  power of two) within half a unit in the last place.
\<close>

lemma float_round_correct:
  assumes "0 < p"
  shows "\<exists>m a b. 2 ^ 52 \<le> m \<and> m < 2 ^ 53
           \<and> float_round (of_int p / 2 ^ k) = of_int m * 2 ^ a / 2 ^ b
           \<and> \<bar>float_round (of_int p / 2 ^ k) - of_int p / 2 ^ k\<bar> \<le> (2 ^ a / 2 ^ b) / 2"
proof -
  define x :: rat where "x = of_int p / 2 ^ k"
  obtain n d where q: "quotient_of x = (n, d)"
    by (cases "quotient_of x")
  from dyadic_quotient [OF assms q [unfolded x_def]]
  obtain j where n: "0 < n" and d: "d = 2 ^ j"
    by blast
  from q have x: "x = of_int n / of_int d"
    by (rule quotient_of_div)
  have pos: "0 < x"
    using assms by (simp add: x_def)
  with q have val: "float_round x = of_int (round_53 n) / of_int d"
    by (simp add: float_round_def)
  from round_53_correct [OF n] obtain m a b where m: "2 ^ 52 \<le> m" "m < 2 ^ 53"
    and grid: "(of_int (round_53 n) :: rat) = of_int m * 2 ^ a / 2 ^ b"
    and near: "\<bar>of_int (round_53 n) - of_int n :: rat\<bar> \<le> (2 ^ a / 2 ^ b) / 2"
    by blast
  have "float_round x = of_int m * 2 ^ a / 2 ^ (b + j)"
    by (simp add: val grid d power_add)
  moreover have "\<bar>float_round x - x\<bar> \<le> (2 ^ a / 2 ^ (b + j)) / 2"
  proof -
    have "float_round x - x = (of_int (round_53 n) - of_int n) / 2 ^ j"
      by (subst val) (simp add: x d diff_divide_distrib)
    then have "\<bar>float_round x - x\<bar> = \<bar>of_int (round_53 n) - of_int n :: rat\<bar> / 2 ^ j"
      by (simp only: abs_divide) simp
    also have "\<dots> \<le> ((2 ^ a / 2 ^ b) / 2) / 2 ^ j"
      using near by (intro divide_right_mono) simp_all
    also have "\<dots> = (2 ^ a / 2 ^ (b + j)) / 2"
      by (simp add: power_add)
    finally show ?thesis .
  qed
  ultimately show ?thesis
    using m unfolding x_def by blast
qed

text \<open>
  The estimate is the product of the length and the double \<open>0.1\<close>, correctly rounded.
\<close>

lemma duration_estimate_correct:
  assumes "0 < n" and "n < 2 ^ 53"
  shows "\<exists>m a b. 2 ^ 52 \<le> m \<and> m < 2 ^ 53
           \<and> float_mul (float_of_nat n) float_0_1 = of_int m * 2 ^ a / 2 ^ b
           \<and> \<bar>float_mul (float_of_nat n) float_0_1 - of_nat n * float_0_1\<bar>
                 \<le> (2 ^ a / 2 ^ b) / 2"
proof -
  have "(of_nat n :: rat) * float_0_1 = of_int (int n * 3602879701896397) / 2 ^ 55"
    by (simp add: float_0_1_def)
  moreover have "0 < int n * 3602879701896397"
    using assms(1) by simp
  ultimately show ?thesis
    using float_round_correct [of "int n * 3602879701896397" 55]
    by (simp only: float_mul_def float_of_nat_exact [OF assms(2)])
qed

lemma float_0_1_double:
  "float_0_1 = of_int 7205759403792794 * 2 ^ 0 / 2 ^ 56"
  "(2 :: int) ^ 52 \<le> 7205759403792794" "(7205759403792794 :: int) < 2 ^ 53"
  "\<bar>float_0_1 - 1 / 10\<bar> \<le> (2 ^ 0 / 2 ^ 56) / 2"
  by (simp_all add: float_0_1_def)

lemma float_0_1_nearest: "\<bar>float_0_1 - 1 / 10\<bar> \<le> 1 / 2 ^ 57"
  by (simp add: float_0_1_def)

lemma synthesize_speech_result:
  "fst (synthesize_speech base file_uuid file_now job_uuid job_now request st) = Inr job
   \<Longrightarrow> job = \<lparr>s_id = job_uuid,
             s_audio_url = ''/audio/'' @ path_name
                (path_join (AUDIO_DIR base) (''synthesis_'' @ file_uuid @ ''.txt'')),
             s_duration = Some (float_mul (float_of_nat (length (req_text request))) float_0_1),
             s_voice_id = req_voice_id request,
             s_text = req_text request,
             s_created_at = job_now\<rparr>
       \<and> synthesis_cache (snd (synthesize_speech base file_uuid file_now job_uuid job_now
                                 request st))
           = AList.update job_uuid job (synthesis_cache st)"
  by (auto simp: synthesize_speech_def generate_synthesis_audio_def Let_def
      split: if_splits sum.splits prod.splits)

text \<open>
  Claim C1. A synthesize request whose \<open>voice_id\<close> is not a key of the voice table is
  answered with the 404 error naming that id, and the state after the call is the state
  before it: no job has been recorded and no file has been written.
\<close>

theorem synthesize_unknown_voice:
  assumes "req_voice_id request \<notin> fst ` set (voices_db st)"
  shows "synthesize_speech base file_uuid file_now job_uuid job_now request st
           = (Inl (voice_not_found (req_voice_id request)), st)
         \<and> status_code (voice_not_found (req_voice_id request)) = 404
         \<and> synthesis_cache
              (snd (synthesize_speech base file_uuid file_now job_uuid job_now request st))
             = synthesis_cache st
         \<and> disk (snd (synthesize_speech base file_uuid file_now job_uuid job_now request st))
             = disk st"
proof -
  from assms have "map_of (voices_db st) (req_voice_id request) = None"
    by (simp add: map_of_None_iff_not_key)
  then show ?thesis
    by (simp add: synthesize_speech_def status_voice_not_found)
qed

theorem synthesize_unknown_voice_witness:
  "synthesize_speech example_base ''7f0c5a52-91d4-4c1e-8a43-5b1f0e6d2a10''
     ''2024-05-01T09:30:00'' ''0b9d3c6e-2f47-4d8a-9c15-6a7e8f901b22'' ''2024-05-01T09:30:01''
     (example_request\<lparr>req_voice_id := ''nobody''\<rparr>) example_state
   = (Inl (HTTPException 404 (''Voice with ID '' @ quote ''nobody'' @ '' not found'')),
      example_state)"
proof -
  have unknown: "req_voice_id (example_request\<lparr>req_voice_id := ''nobody''\<rparr>)
                   \<notin> fst ` set (voices_db example_state)"
    by (simp add: example_state_def)
  have "synthesize_speech example_base ''7f0c5a52-91d4-4c1e-8a43-5b1f0e6d2a10''
     ''2024-05-01T09:30:00'' ''0b9d3c6e-2f47-4d8a-9c15-6a7e8f901b22'' ''2024-05-01T09:30:01''
     (example_request\<lparr>req_voice_id := ''nobody''\<rparr>) example_state
   = (Inl (voice_not_found (req_voice_id (example_request\<lparr>req_voice_id := ''nobody''\<rparr>))),
      example_state)"
    using synthesize_unknown_voice [OF unknown] by (rule conjunct1)
  then show ?thesis
    by (simp add: voice_not_found_def HTTP_404_NOT_FOUND_def)
qed

text \<open>
  Claim C2. The duration of the job returned by a successful synthesize request is a
  tenth of the length of the text, as double-precision arithmetic computes
  \<^verbatim>\<open>len(text) * 0.1\<close>. It differs from the exact tenth of the length by at most one
  part in \<open>2 ^ 52\<close> (so it is 0 for the empty text). For a text that is not empty it is
  the product of the length and the double nearest to one tenth, which is
  \<open>7205759403792794 / 2 ^ 56\<close>, correctly rounded: a double, that is a significand
  \<open>m\<close> of 53 bits times a power of two, within half a unit in the last place of the
  exact product. For the five characters of \<^verbatim>\<open>hello\<close> it is exactly one half.
\<close>

theorem synthesize_duration_estimate:
  assumes "fst (synthesize_speech base file_uuid file_now job_uuid job_now request st)
             = Inr job"
  shows "\<exists>d. s_duration job = Some d
           \<and> (length (req_text request) < 2 ^ 53 \<longrightarrow>
                \<bar>d - of_nat (length (req_text request)) / 10\<bar>
                  \<le> (of_nat (length (req_text request)) / 10) / 2 ^ 52)
           \<and> (0 < length (req_text request) \<and> length (req_text request) < 2 ^ 53 \<longrightarrow>
                (\<exists>m a b. 2 ^ 52 \<le> m \<and> m < 2 ^ 53 \<and> d = of_int m * 2 ^ a / 2 ^ b
                    \<and> \<bar>d - of_nat (length (req_text request))
                               * (7205759403792794 / 2 ^ 56)\<bar>
                          \<le> (2 ^ a / 2 ^ b) / 2))
           \<and> \<bar>7205759403792794 / 2 ^ 56 - 1 / 10 :: rat\<bar> \<le> (1 / 2 ^ 56) / 2
           \<and> (req_text request = ''hello'' \<longrightarrow> d = 1 / 2)"
proof -
  let ?n = "length (req_text request)"
  let ?d = "float_mul (float_of_nat ?n) float_0_1"
  from synthesize_speech_result [OF assms]
  have "s_duration job = Some ?d"
    by (elim conjE) (erule ssubst, simp)
  moreover have "?n < 2 ^ 53 \<longrightarrow> \<bar>?d - of_nat ?n / 10\<bar> \<le> (of_nat ?n / 10) / 2 ^ 52"
    by (rule impI) (rule duration_estimate_bound)
  moreover have "0 < ?n \<and> ?n < 2 ^ 53 \<longrightarrow>
                   (\<exists>m a b. 2 ^ 52 \<le> m \<and> m < 2 ^ 53 \<and> ?d = of_int m * 2 ^ a / 2 ^ b
                       \<and> \<bar>?d - of_nat ?n * (7205759403792794 / 2 ^ 56)\<bar>
                             \<le> (2 ^ a / 2 ^ b) / 2)"
  proof
    assume "0 < ?n \<and> ?n < 2 ^ 53"
    then have "\<exists>m a b. 2 ^ 52 \<le> m \<and> m < 2 ^ 53 \<and> ?d = of_int m * 2 ^ a / 2 ^ b
                 \<and> \<bar>?d - of_nat ?n * float_0_1\<bar> \<le> (2 ^ a / 2 ^ b) / 2"
      by (intro duration_estimate_correct) simp_all
    moreover have "float_0_1 = 7205759403792794 / 2 ^ 56"
      by (simp add: float_0_1_def)
    ultimately show "\<exists>m a b. 2 ^ 52 \<le> m \<and> m < 2 ^ 53 \<and> ?d = of_int m * 2 ^ a / 2 ^ b
                       \<and> \<bar>?d - of_nat ?n * (7205759403792794 / 2 ^ 56)\<bar>
                             \<le> (2 ^ a / 2 ^ b) / 2"
      by (simp only:)
  qed
  moreover have "\<bar>7205759403792794 / 2 ^ 56 - 1 / 10 :: rat\<bar> \<le> (1 / 2 ^ 56) / 2"
    by simp
  moreover have "req_text request = ''hello'' \<longrightarrow> ?d = 1 / 2"
    using hello_estimate by simp
  ultimately show ?thesis
    by blast
qed

theorem synthesize_duration_estimate_witness:
  "fst (synthesize_speech example_base ''7f0c5a52-91d4-4c1e-8a43-5b1f0e6d2a10''
          ''2024-05-01T09:30:00'' ''0b9d3c6e-2f47-4d8a-9c15-6a7e8f901b22''
          ''2024-05-01T09:30:01'' example_request example_state) = Inr example_job
   \<and> s_duration example_job = Some (1 / 2)
   \<and> 0 < length (req_text example_request)
   \<and> length (req_text example_request) < 2 ^ 53
   \<and> \<bar>(1 / 2 :: rat) - of_nat (length (req_text example_request)) / 10\<bar>
       \<le> (of_nat (length (req_text example_request)) / 10) / 2 ^ 52"
proof -
  from synthesize_duration_estimate [OF example_synthesis]
  obtain d where "s_duration example_job = Some d"
    and "length (req_text example_request) < 2 ^ 53 \<longrightarrow>
           \<bar>d - of_nat (length (req_text example_request)) / 10\<bar>
             \<le> (of_nat (length (req_text example_request)) / 10) / 2 ^ 52"
    and "req_text example_request = ''hello'' \<longrightarrow> d = 1 / 2"
    by blast
  moreover have "req_text example_request = ''hello''"
    by (simp add: example_request_def)
  moreover have "length (req_text example_request) < 2 ^ 53"
    and "0 < length (req_text example_request)"
    by (simp_all add: example_request_def)
  ultimately show ?thesis
    using example_synthesis by simp
qed

text \<open>
  Claim C7. The job returned by a successful synthesize request is what
  \<^verbatim>\<open>GET /synthesis/{id}\<close> returns for its id in the state the request leaves behind: the
  same record, hence the same id, audio_url, duration, voice_id, text and created_at.
\<close>

theorem synthesize_then_get:
  assumes "fst (synthesize_speech base file_uuid file_now job_uuid job_now request st)
             = Inr job"
  shows "get_synthesis (s_id job)
           (snd (synthesize_speech base file_uuid file_now job_uuid job_now request st))
         = Inr job"
proof -
  note result = synthesize_speech_result [OF assms]
  from result have id: "s_id job = job_uuid"
    by (elim conjE) (erule ssubst, simp)
  from result
  have cache: "synthesis_cache
                 (snd (synthesize_speech base file_uuid file_now job_uuid job_now request st))
               = AList.update job_uuid job (synthesis_cache st)"
    by (rule conjunct2)
  show ?thesis
    by (simp add: get_synthesis_def id cache AList.update_conv')
qed

theorem synthesize_then_get_witness:
  "get_synthesis ''0b9d3c6e-2f47-4d8a-9c15-6a7e8f901b22''
     (snd (synthesize_speech example_base ''7f0c5a52-91d4-4c1e-8a43-5b1f0e6d2a10''
             ''2024-05-01T09:30:00'' ''0b9d3c6e-2f47-4d8a-9c15-6a7e8f901b22''
             ''2024-05-01T09:30:01'' example_request example_state))
   = Inr example_job"
  using synthesize_then_get [OF example_synthesis]
  by (simp add: example_job_def)

lemma validation_errors:
  assumes "(\<exists>t. body_text body = Some t \<and> (length t = 0 \<or> 5000 < length t))
           \<or> (\<exists>x. body_speed body = Some x \<and> (\<forall>f. x = Finite f \<longrightarrow> f < 1 / 2 \<or> 2 < f))
           \<or> (\<exists>x. body_pitch body = Some x \<and> (\<forall>f. x = Finite f \<longrightarrow> f < 1 / 2 \<or> 2 < f))"
  shows "\<exists>locs. validate_SynthesisRequest body = Inl locs"
proof -
  from assms
  have "(\<exists>l. check_text (body_text body) = Inl l)
        \<or> (\<exists>l. check_multiplier ''speed'' (body_speed body) = Inl l)
        \<or> (\<exists>l. check_multiplier ''pitch'' (body_pitch body) = Inl l)"
    by (auto simp: check_text_def check_multiplier_def split: json_number.splits)
  then show ?thesis
    by (auto simp: validate_SynthesisRequest_def Let_def split: sum.splits)
qed

text \<open>
  Text of length 0 or above 5000, or a speed or pitch outside the closed interval from
  0.5 to 2.0 (an infinity or NaN included), is rejected before the handler runs and the
  state stays as it was; the answer is 422 when the speed and the pitch that were given
  are finite.
\<close>

lemma synthesize_validation_rejects:
  assumes "(\<exists>t. body_text body = Some t \<and> (length t = 0 \<or> 5000 < length t))
           \<or> (\<exists>x. body_speed body = Some x \<and> (\<forall>f. x = Finite f \<longrightarrow> f < 1 / 2 \<or> 2 < f))
           \<or> (\<exists>x. body_pitch body = Some x \<and> (\<forall>f. x = Finite f \<longrightarrow> f < 1 / 2 \<or> 2 < f))"
  shows "\<exists>e. post_synthesize base file_uuid file_now job_uuid job_now body st = (Inl e, st)
             \<and> status_code e
                 = (if is_finite (body_speed body) \<and> is_finite (body_pitch body)
                    then 422 else 500)"
proof -
  from validation_errors [OF assms] obtain locs
    where "validate_SynthesisRequest body = Inl locs"
    by blast
  then show ?thesis
    by (simp add: post_synthesize_def)
qed

text \<open>
  Claim C8 at the body \<^verbatim>\<open>{"text": "hello", "voice_id": "default", "speed": 1e400}\<close>,
  whose speed the parser reads as an infinity: the request is rejected with the state
  unchanged, but the answer is 500, whereas a finite speed outside the interval, such as
  3, is answered with 422.
\<close>

theorem synthesize_infinite_speed:
  "post_synthesize example_base ''7f0c5a52-91d4-4c1e-8a43-5b1f0e6d2a10''
     ''2024-05-01T09:30:00'' ''0b9d3c6e-2f47-4d8a-9c15-6a7e8f901b22'' ''2024-05-01T09:30:01''
     \<lparr>body_text = Some ''hello'', body_voice_id = Some ''default'', body_speed = Some PosInf,
      body_pitch = None\<rparr> example_state
   = (Inl InternalServerError, example_state)
   \<and> status_code InternalServerError = 500
   \<and> post_synthesize example_base ''7f0c5a52-91d4-4c1e-8a43-5b1f0e6d2a10''
     ''2024-05-01T09:30:00'' ''0b9d3c6e-2f47-4d8a-9c15-6a7e8f901b22'' ''2024-05-01T09:30:01''
     \<lparr>body_text = Some ''hello'', body_voice_id = Some ''default'',
      body_speed = Some (Finite 3), body_pitch = None\<rparr> example_state
   = (Inl (RequestValidationError [''speed'']), example_state)"
  by (simp add: post_synthesize_def validate_SynthesisRequest_def check_text_def
      check_voice_id_def check_multiplier_def errors_of_def is_finite_def)

text \<open>
  Claim C9. Deleting a voice never touches the job table, whatever the id and whether or
  not recorded jobs name that voice: listing the jobs and fetching any job give the same
  answers after the call as before.
\<close>

theorem delete_voice_keeps_jobs:
  "synthesis_cache (snd (delete_voice voice_id st)) = synthesis_cache st
   \<and> get_all_synthesis (snd (delete_voice voice_id st)) = get_all_synthesis st
   \<and> get_synthesis synthesis_id (snd (delete_voice voice_id st))
       = get_synthesis synthesis_id st"
proof -
  have "synthesis_cache (snd (delete_voice voice_id st)) = synthesis_cache st"
    by (simp add: delete_voice_def split: option.splits sum.splits)
  then show ?thesis
    by (simp add: get_all_synthesis_def get_synthesis_def)
qed

section \<open>Properties of the voice endpoints\<close>

lemma upload_voice_result:
  "fst (upload_voice base uuid now file name description language st) = Inr voice
   \<Longrightarrow> voice = \<lparr>v_id = uuid, v_name = name, v_description = description,
               v_language = language, v_created_at = now,
               v_file_path =
                 Some (path_join (VOICES_DIR base) (uuid @ file_extension_of file)),
               v_duration = Some 10, v_sample_rate = Some 22050\<rparr>
       \<and> voices_db (snd (upload_voice base uuid now file name description language st))
           = AList.update uuid voice (voices_db st)
       \<and> validate_audio_file file"
  by (auto simp: upload_voice_def get_audio_duration_def Let_def
      split: if_splits sum.splits)

lemma file_extension_example: "file_extension_of example_upload = ''.wav''"
proof -
  have "path_parts ''a.wav'' = [''a.wav'']"
    by (rule path_parts_single) simp_all
  then have "path_suffix (path_parts ''a.wav'') = ''.wav''"
    by (simp add: path_suffix_def path_name_def)
  moreover have "lower ''.wav'' = ''.wav''"
    by (simp add: lower_def lower_char_def)
  ultimately show ?thesis
    by (simp add: file_extension_of_def example_upload_def)
qed

lemma example_upload_valid: "validate_audio_file example_upload"
  by (simp add: validate_audio_file_def valid_types_def example_upload_def)

lemma example_upload_path:
  "path_join (VOICES_DIR example_base) ''3d6f0a1e-5b7c-4e2d-9f80-1a2b3c4d5e6f.wav''
     = [''srv'', ''backend'', ''storage'', ''voices'',
        ''3d6f0a1e-5b7c-4e2d-9f80-1a2b3c4d5e6f.wav'']"
proof -
  have "path_join (VOICES_DIR example_base) ''3d6f0a1e-5b7c-4e2d-9f80-1a2b3c4d5e6f.wav''
          = VOICES_DIR example_base @ [''3d6f0a1e-5b7c-4e2d-9f80-1a2b3c4d5e6f.wav'']"
    by (rule path_join_single) simp_all
  then show ?thesis
    by (simp add: VOICES_DIR_def example_base_def)
qed

lemma example_upload_accepted:
  "os_accepts (VOICES_DIR example_base
                 @ [''3d6f0a1e-5b7c-4e2d-9f80-1a2b3c4d5e6f'' @ file_extension_of example_upload])"
proof -
  have "os_accepts ([''srv'', ''backend'', ''storage'', ''voices'']
                      @ [''3d6f0a1e-5b7c-4e2d-9f80-1a2b3c4d5e6f.wav''])"
    by (rule os_accepts_example) (simp_all add: utf8_length_def)
  then show ?thesis
    by (simp add: file_extension_example VOICES_DIR_def example_base_def)
qed

subsection \<open>Dictionaries\<close>

lemma update_new_key: "k \<notin> fst ` set al \<Longrightarrow> AList.update k v al = al @ [(k, v)]"
  by (induction al) auto

lemma update_entries: "set (AList.update k v al) \<subseteq> insert (k, v) (set al)"
  by (induction al) auto

lemma delete_entries: "set (AList.delete k al) \<subseteq> set al"
  by (auto simp: AList.delete_eq)

lemma registry_ids: "registry_ok base db \<Longrightarrow> map v_id (map snd db) = map fst db"
  by (induction db) (auto simp: registry_ok_def)

lemma registry_delete_values:
  "registry_ok base db \<Longrightarrow>
   map snd (AList.delete k db) = filter (\<lambda>v. v_id v \<noteq> k) (map snd db)"
  by (induction db) (auto simp: registry_ok_def AList.delete_eq)

lemma registry_ok_delete: "registry_ok base db \<Longrightarrow> registry_ok base (AList.delete k db)"
  unfolding registry_ok_def
  using delete_entries [of k db] by (fastforce simp: AList.distinct_delete)

lemma registry_ok_update:
  assumes "registry_ok base db" and "v_id v = k"
    and "\<forall>p. v_file_path v = Some p \<longrightarrow>
           p \<noteq> [] \<and> butlast p = VOICES_DIR base \<and> last p \<noteq> ''..'' \<and> os_accepts p"
  shows "registry_ok base (AList.update k v db)"
  unfolding registry_ok_def
proof (intro conjI ballI)
  show "distinct (map fst (AList.update k v db))"
    using assms(1) by (simp add: registry_ok_def AList.distinct_update)
next
  fix e assume "e \<in> set (AList.update k v db)"
  then have "e = (k, v) \<or> e \<in> set db"
    using update_entries [of k v db] by auto
  then show "case e of (k, v) \<Rightarrow> v_id v = k
       \<and> (\<forall>p. v_file_path v = Some p \<longrightarrow>
              p \<noteq> [] \<and> butlast p = VOICES_DIR base \<and> last p \<noteq> ''..'' \<and> os_accepts p)"
    using assms by (auto simp: registry_ok_def)
qed

lemma jobs_ok_update: "jobs_ok cache \<Longrightarrow> s_id r = k \<Longrightarrow> jobs_ok (AList.update k r cache)"
  unfolding jobs_ok_def
  using update_entries [of k r cache] by (auto simp: AList.distinct_update)

text \<open>
  Writing a record under its id leaves exactly one record with that id in the listing
  and every record with another id where it was.
\<close>

lemma registry_update_single:
  "registry_ok base db \<Longrightarrow> v_id v = k \<Longrightarrow>
   filter (\<lambda>x. v_id x = k) (map snd (AList.update k v db)) = [v]"
proof (induction db)
  case Nil
  then show ?case by simp
next
  case (Cons e db)
  obtain k' x where e: "e = (k', x)"
    by (cases e)
  from Cons.prems(1) have rest: "registry_ok base db" and own: "v_id x = k'"
    and new: "k' \<notin> fst ` set db"
    by (auto simp: registry_ok_def e)
  show ?case
  proof (cases "k' = k")
    case True
    have "v_id y \<noteq> k" if "y \<in> set (map snd db)" for y
    proof -
      from that obtain a where "(a, y) \<in> set db"
        by auto
      with rest have "v_id y = a" and "a \<in> fst ` set db"
        by (force simp: registry_ok_def)+
      with new True show ?thesis
        by auto
    qed
    then have "filter (\<lambda>x. v_id x = k) (map snd db) = []"
      by (simp add: filter_empty_conv)
    with True Cons.prems(2) show ?thesis
      by (simp add: e)
  next
    case False
    with own Cons.IH [OF rest Cons.prems(2)] show ?thesis
      by (simp add: e)
  qed
qed

lemma registry_update_others:
  "registry_ok base db \<Longrightarrow> v_id v = k \<Longrightarrow>
   filter (\<lambda>x. v_id x \<noteq> k) (map snd (AList.update k v db))
     = filter (\<lambda>x. v_id x \<noteq> k) (map snd db)"
  by (induction db) (auto simp: registry_ok_def)

subsection \<open>Files in the storage directories\<close>

lemma uuid_no_slash: "is_uuid_str u \<Longrightarrow> CHR ''/'' \<notin> set u"
  by (auto simp: is_uuid_str_def)

lemma uuid_file_name:
  assumes "is_uuid_str u" and "CHR ''/'' \<notin> set a" and "CHR ''/'' \<notin> set e"
  shows "CHR ''/'' \<notin> set (a @ u @ e)" and "a @ u @ e \<noteq> []" and "a @ u @ e \<noteq> ''.''"
    and "a @ u @ e \<noteq> ''..''"
proof -
  show "CHR ''/'' \<notin> set (a @ u @ e)"
    using assms by (simp add: uuid_no_slash)
  have "36 \<le> length (a @ u @ e)"
    using assms(1) by (simp add: is_uuid_str_def)
  then show "a @ u @ e \<noteq> []" and "a @ u @ e \<noteq> ''.''" and "a @ u @ e \<noteq> ''..''"
    by (auto dest: arg_cong [where f = length])
qed

lemma storage_ok_write_voice:
  "storage_ok base d \<Longrightarrow> storage_ok base (d(VOICES_DIR base @ [n] \<mapsto> File c))"
  by (auto simp: storage_ok_def VOICES_DIR_def AUDIO_DIR_def)

lemma storage_ok_write_audio:
  "storage_ok base d \<Longrightarrow> storage_ok base (d(AUDIO_DIR base @ [n] \<mapsto> File c))"
  by (auto simp: storage_ok_def VOICES_DIR_def AUDIO_DIR_def)

lemma storage_ok_remove_voice:
  "storage_ok base d \<Longrightarrow> storage_ok base (d(VOICES_DIR base @ [n] := None))"
  by (auto simp: storage_ok_def VOICES_DIR_def AUDIO_DIR_def)

subsection \<open>Upload\<close>

lemma voice_file_path:
  assumes "is_uuid_str uuid"
  shows "path_join (VOICES_DIR base) (uuid @ file_extension_of file)
           = VOICES_DIR base @ [uuid @ file_extension_of file]"
    and "uuid @ file_extension_of file \<noteq> ''..''"
  using uuid_file_name [OF assms, of "[]" "file_extension_of file"] file_extension_no_slash
  by (simp_all add: path_join_single)

lemma upload_voice_success:
  assumes "storage_ok base (disk st)" and "validate_audio_file file" and "is_uuid_str uuid"
    and "os_accepts (VOICES_DIR base @ [uuid @ file_extension_of file])"
  shows "upload_voice base uuid now file name description language st
           = (Inr \<lparr>v_id = uuid, v_name = name, v_description = description,
                    v_language = language, v_created_at = now,
                    v_file_path = Some (VOICES_DIR base @ [uuid @ file_extension_of file]),
                    v_duration = Some 10, v_sample_rate = Some 22050\<rparr>,
              st\<lparr>voices_db :=
                   AList.update uuid
                     \<lparr>v_id = uuid, v_name = name, v_description = description,
                      v_language = language, v_created_at = now,
                      v_file_path =
                        Some (VOICES_DIR base @ [uuid @ file_extension_of file]),
                      v_duration = Some 10, v_sample_rate = Some 22050\<rparr>
                     (voices_db st),
                 disk := (disk st)(VOICES_DIR base @ [uuid @ file_extension_of file]
                                     \<mapsto> File (Uploaded (up_bytes file)))\<rparr>)"
proof -
  let ?p = "VOICES_DIR base @ [uuid @ file_extension_of file]"
  note name = voice_file_path [OF assms(3)]
  have "uuid @ file_extension_of file \<noteq> ''..''"
    by (rule name(2))
  with assms(1) have "''..'' \<notin> set ?p"
    by (auto simp: storage_ok_def VOICES_DIR_def)
  with assms(1,4)
  have "write_file (disk st) ?p c = Inr ((disk st)(?p \<mapsto> File c))" for c
    by (intro write_file_child) (simp_all add: storage_ok_def)
  then show ?thesis
    using assms(2) name(1)
    by (simp add: upload_voice_def get_audio_duration_def Let_def)
qed

text \<open>
  When the operating system refuses the file, the handler answers 500 and the state is
  the one before the call.
\<close>

lemma upload_voice_refused:
  assumes "storage_ok base (disk st)" and "is_uuid_str uuid"
    and "\<not> os_accepts (VOICES_DIR base @ [uuid @ file_extension_of file])"
  shows "snd (upload_voice base uuid now file name description language st) = st"
proof -
  let ?p = "VOICES_DIR base @ [uuid @ file_extension_of file]"
  note name = voice_file_path [OF assms(2)]
  have "uuid @ file_extension_of file \<noteq> ''..''"
    by (rule name(2))
  with assms(1) have "''..'' \<notin> set ?p"
    by (auto simp: storage_ok_def VOICES_DIR_def)
  from write_file_refused [OF this assms(3)]
  obtain e where "write_file (disk st) ?p (Uploaded (up_bytes file)) = Inl e"
    by blast
  then show ?thesis
    using name(1) by (simp add: upload_voice_def Let_def)
qed

lemma upload_voice_name_too_long:
  assumes "storage_ok base (disk st)" and "validate_audio_file file" and "is_uuid_str uuid"
    and "\<forall>c \<in> set (VOICES_DIR base). utf8_length c \<le> NAME_MAX"
    and "NAME_MAX < utf8_length (uuid @ file_extension_of file)"
    and "check_path (VOICES_DIR base @ [uuid @ file_extension_of file]) = None"
  shows "upload_voice base uuid now file name description language st
           = (Inl (HTTPException 500
                     (''Failed to upload voice: ''
                        @ str_os_error
                            (FileNameTooLong
                               (VOICES_DIR base @ [uuid @ file_extension_of file])))), st)"
proof -
  let ?p = "VOICES_DIR base @ [uuid @ file_extension_of file]"
  note name = voice_file_path [OF assms(3)]
  from assms(1) have "''..'' \<notin> set (VOICES_DIR base)" and "disk st (VOICES_DIR base) = Some Dir"
    by (simp_all add: storage_ok_def VOICES_DIR_def)
  with assms(4,5,6) have "write_file (disk st) ?p c = Inl (FileNameTooLong ?p)" for c
    by (intro write_file_name_too_long)
  then show ?thesis
    using assms(2) name(1)
    by (simp add: upload_voice_def Let_def HTTP_500_INTERNAL_SERVER_ERROR_def)
qed

lemma wf_upload:
  assumes "wf_state base st" and "is_uuid_str uuid"
  shows "wf_state base (snd (upload_voice base uuid now file name description language st))"
proof (cases "validate_audio_file file
              \<and> os_accepts (VOICES_DIR base @ [uuid @ file_extension_of file])")
  case False
  from assms(1) have ok: "storage_ok base (disk st)"
    by (simp add: wf_state_def)
  have "snd (upload_voice base uuid now file name description language st) = st"
  proof (cases "validate_audio_file file")
    case True
    with False show ?thesis
      by (intro upload_voice_refused [OF ok assms(2)]) simp
  next
    case False
    then show ?thesis
      by (simp add: upload_voice_def)
  qed
  with assms(1) show ?thesis
    by simp
next
  case True
  from assms(1) have ok: "storage_ok base (disk st)"
    by (simp add: wf_state_def)
  from True have valid: "validate_audio_file file"
    and accepted: "os_accepts (VOICES_DIR base @ [uuid @ file_extension_of file])"
    by simp_all
  note name = voice_file_path [OF assms(2)]
  show ?thesis
    using assms(1) name(2) accepted
    by (simp add: upload_voice_success [OF ok valid assms(2) accepted] wf_state_def
        storage_ok_write_voice registry_ok_update)
qed

lemma file_extension_cases:
  "file_extension_of file
     = (case up_filename file of
          None \<Rightarrow> ''.wav''
        | Some f \<Rightarrow>
            if f = [] \<or> path_suffix (path_parts f) = [] then ''.wav''
            else lower (path_suffix (path_parts f)))"
proof -
  have "path_parts ''audio.wav'' = [''audio.wav'']"
    by (rule path_parts_single) simp_all
  then have "path_suffix (path_parts ''audio.wav'') = ''.wav''"
    by (simp add: path_suffix_def path_name_def)
  moreover have "lower ''.wav'' = ''.wav''"
    by (simp add: lower_def lower_char_def)
  ultimately show ?thesis
    by (simp add: file_extension_of_def lower_def split: option.splits)
qed

lemma file_extension_no_capital:
  "set (file_extension_of file) \<inter> set ''ABCDEFGHIJKLMNOPQRSTUVWXYZ'' = {}"
proof (cases "file_extension_of file = ''.wav''")
  case True
  then show ?thesis
    by simp
next
  case False
  then obtain f where "file_extension_of file = lower (path_suffix (path_parts f))"
    by (auto simp: file_extension_cases split: option.splits if_splits)
  then show ?thesis
    by (simp only: lower_no_capital)
qed

lemma wf_example: "wf_state example_base example_state"
  by (simp add: wf_state_def storage_ok_def registry_ok_def jobs_ok_def example_state_def
      example_base_def VOICES_DIR_def AUDIO_DIR_def default_voice_def)

lemma example_uuid: "is_uuid_str ''3d6f0a1e-5b7c-4e2d-9f80-1a2b3c4d5e6f''"
  by (simp add: is_uuid_str_def)

lemma example_upload_run:
  "fst (upload_voice example_base ''3d6f0a1e-5b7c-4e2d-9f80-1a2b3c4d5e6f''
          ''2024-05-01T09:15:00'' example_upload ''Custom Voice'' [] ''en'' example_state)
   = Inr example_voice"
proof -
  have ok: "storage_ok example_base (disk example_state)"
    using wf_example by (simp add: wf_state_def)
  note run = upload_voice_success [OF ok example_upload_valid example_uuid
      example_upload_accepted, of "''2024-05-01T09:15:00''" "''Custom Voice''" "[]" "''en''"]
  show ?thesis
    by (simp add: run file_extension_example)
      (simp add: example_voice_def VOICES_DIR_def example_base_def)
qed

lemma example_uploaded_state:
  "example_uploaded
     = example_state
         \<lparr>voices_db := AList.update ''3d6f0a1e-5b7c-4e2d-9f80-1a2b3c4d5e6f'' example_voice
                         (voices_db example_state),
          disk := (disk example_state)
                    ([''srv'', ''backend'', ''storage'', ''voices'',
                      ''3d6f0a1e-5b7c-4e2d-9f80-1a2b3c4d5e6f.wav'']
                       \<mapsto> File (Uploaded (up_bytes example_upload)))\<rparr>"
proof -
  have ok: "storage_ok example_base (disk example_state)"
    using wf_example by (simp add: wf_state_def)
  note run = upload_voice_success [OF ok example_upload_valid example_uuid
      example_upload_accepted, of "''2024-05-01T09:15:00''" "''Custom Voice''" "[]" "''en''"]
  show ?thesis
    unfolding example_uploaded_def
    by (simp add: run file_extension_example)
      (simp add: example_voice_def VOICES_DIR_def example_base_def)
qed

lemma wf_example_uploaded: "wf_state example_base example_uploaded"
  unfolding example_uploaded_def by (rule wf_upload [OF wf_example example_uuid])

lemma example_uploaded_voice:
  "map_of (voices_db example_uploaded) ''3d6f0a1e-5b7c-4e2d-9f80-1a2b3c4d5e6f''
     = Some example_voice"
  by (simp add: example_uploaded_state AList.update_conv')

lemma example_uploaded_listing:
  "get_voices example_uploaded = [default_voice ''2024-05-01T09:00:00'', example_voice]"
  by (simp add: example_uploaded_state get_voices_def example_state_def)

text \<open>
  Claim C5, amended. In a well-formed state, an upload with an accepted content type, an
  id as \<^verbatim>\<open>uuid4\<close> draws it and a file name that the operating system accepts succeeds.
  The record is stored under the drawn id, which is not compared with the registry: a
  record that was stored under that id is replaced and every other record stays, so that
  afterwards exactly one record carries the id (it is appended to the listing when the
  id was new). The uploaded bytes are written to the entry of the voices directory that
  is named by the id followed by the extension of the original file name converted to
  lower case (\<^verbatim>\<open>.wav\<close> when there is no name or no extension); that file exists when
  the call returns and is the recorded \<^verbatim>\<open>file_path\<close>; the sample rate is 22050.
\<close>

theorem upload_voice_valid:
  assumes "wf_state base st" and "validate_audio_file file" and "is_uuid_str uuid"
    and "os_accepts (VOICES_DIR base @ [uuid @ file_extension_of file])"
  shows "\<exists>voice extension.
           fst (upload_voice base uuid now file name description language st) = Inr voice
           \<and> v_id voice = uuid
           \<and> filter (\<lambda>v. v_id v = uuid)
                (get_voices (snd (upload_voice base uuid now file name description language st)))
               = [voice]
           \<and> filter (\<lambda>v. v_id v \<noteq> uuid)
                (get_voices (snd (upload_voice base uuid now file name description language st)))
               = filter (\<lambda>v. v_id v \<noteq> uuid) (get_voices st)
           \<and> distinct (map v_id (get_voices
                 (snd (upload_voice base uuid now file name description language st))))
           \<and> (uuid \<notin> set (map v_id (get_voices st)) \<longrightarrow>
                get_voices (snd (upload_voice base uuid now file name description language st))
                  = get_voices st @ [voice])
           \<and> extension
               = (case up_filename file of
                    None \<Rightarrow> ''.wav''
                  | Some f \<Rightarrow>
                      if f = [] \<or> path_suffix (path_parts f) = [] then ''.wav''
                      else lower (path_suffix (path_parts f)))
           \<and> set extension \<inter> set ''ABCDEFGHIJKLMNOPQRSTUVWXYZ'' = {}
           \<and> v_file_path voice = Some (VOICES_DIR base @ [uuid @ extension])
           \<and> strictly_within (VOICES_DIR base) (VOICES_DIR base @ [uuid @ extension])
           \<and> disk (snd (upload_voice base uuid now file name description language st))
               = (disk st)(VOICES_DIR base @ [uuid @ extension]
                             \<mapsto> File (Uploaded (up_bytes file)))
           \<and> path_exists
                (disk (snd (upload_voice base uuid now file name description language st)))
                (VOICES_DIR base @ [uuid @ extension]) = Inr True
           \<and> v_sample_rate voice = Some 22050"
proof -
  let ?st' = "snd (upload_voice base uuid now file name description language st)"
  let ?p = "VOICES_DIR base @ [uuid @ file_extension_of file]"
  let ?voice = "\<lparr>v_id = uuid, v_name = name, v_description = description,
                  v_language = language, v_created_at = now, v_file_path = Some ?p,
                  v_duration = Some 10, v_sample_rate = Some 22050\<rparr>"
  from assms(1) have ok: "storage_ok base (disk st)" and reg: "registry_ok base (voices_db st)"
    by (simp_all add: wf_state_def)
  note run = upload_voice_success [OF ok assms(2,3,4), of now name description language]
  have own: "v_id ?voice = uuid"
    by simp
  have "uuid @ file_extension_of file \<noteq> ''..''"
    by (rule voice_file_path(2) [OF assms(3)])
  with ok have plain: "''..'' \<notin> set ?p"
    by (auto simp: storage_ok_def VOICES_DIR_def)
  have result: "fst (upload_voice base uuid now file name description language st) = Inr ?voice"
    by (simp add: run)
  have listing: "get_voices ?st' = map snd (AList.update uuid ?voice (voices_db st))"
    by (simp add: run get_voices_def)
  have single: "filter (\<lambda>v. v_id v = uuid) (get_voices ?st') = [?voice]"
    unfolding listing by (rule registry_update_single [OF reg own])
  have others: "filter (\<lambda>v. v_id v \<noteq> uuid) (get_voices ?st')
                  = filter (\<lambda>v. v_id v \<noteq> uuid) (get_voices st)"
    unfolding listing by (simp add: get_voices_def registry_update_others [OF reg own])
  have reg': "registry_ok base (voices_db ?st')"
    using wf_upload [OF assms(1,3)] by (simp add: wf_state_def)
  from registry_ids [OF reg'] have "map v_id (get_voices ?st') = map fst (voices_db ?st')"
    by (simp add: get_voices_def)
  with reg' have unique: "distinct (map v_id (get_voices ?st'))"
    by (simp add: registry_ok_def)
  have appended: "uuid \<notin> set (map v_id (get_voices st)) \<longrightarrow>
                    get_voices ?st' = get_voices st @ [?voice]"
  proof
    assume "uuid \<notin> set (map v_id (get_voices st))"
    then have "uuid \<notin> fst ` set (voices_db st)"
      using registry_ids [OF reg] by (simp add: get_voices_def)
    then show "get_voices ?st' = get_voices st @ [?voice]"
      unfolding listing by (simp add: update_new_key get_voices_def)
  qed
  have written: "disk ?st' = (disk st)(?p \<mapsto> File (Uploaded (up_bytes file)))"
    by (simp add: run)
  have there: "path_exists (disk ?st') ?p = Inr True"
    by (simp add: path_exists_plain [OF plain assms(4)] written)
  have inside: "strictly_within (VOICES_DIR base) ?p"
    by (simp add: strictly_within_append)
  from result single others unique appended written there inside
  have "fst (upload_voice base uuid now file name description language st) = Inr ?voice
           \<and> v_id ?voice = uuid
           \<and> filter (\<lambda>v. v_id v = uuid) (get_voices ?st') = [?voice]
           \<and> filter (\<lambda>v. v_id v \<noteq> uuid) (get_voices ?st')
               = filter (\<lambda>v. v_id v \<noteq> uuid) (get_voices st)
           \<and> distinct (map v_id (get_voices ?st'))
           \<and> (uuid \<notin> set (map v_id (get_voices st)) \<longrightarrow>
                get_voices ?st' = get_voices st @ [?voice])
           \<and> file_extension_of file
               = (case up_filename file of
                    None \<Rightarrow> ''.wav''
                  | Some f \<Rightarrow>
                      if f = [] \<or> path_suffix (path_parts f) = [] then ''.wav''
                      else lower (path_suffix (path_parts f)))
           \<and> set (file_extension_of file) \<inter> set ''ABCDEFGHIJKLMNOPQRSTUVWXYZ'' = {}
           \<and> v_file_path ?voice = Some (VOICES_DIR base @ [uuid @ file_extension_of file])
           \<and> strictly_within (VOICES_DIR base) (VOICES_DIR base @ [uuid @ file_extension_of file])
           \<and> disk ?st' = (disk st)(VOICES_DIR base @ [uuid @ file_extension_of file]
                             \<mapsto> File (Uploaded (up_bytes file)))
           \<and> path_exists (disk ?st') (VOICES_DIR base @ [uuid @ file_extension_of file])
               = Inr True
           \<and> v_sample_rate ?voice = Some 22050"
    using file_extension_cases [of "file"] file_extension_no_capital [of "file"]
    by (intro conjI) simp_all
  then show ?thesis
    by blast
qed

theorem upload_voice_valid_witness:
  "fst (upload_voice example_base ''3d6f0a1e-5b7c-4e2d-9f80-1a2b3c4d5e6f''
          ''2024-05-01T09:15:00'' example_upload ''Custom Voice'' [] ''en'' example_state)
     = Inr example_voice
   \<and> get_voices (snd (upload_voice example_base ''3d6f0a1e-5b7c-4e2d-9f80-1a2b3c4d5e6f''
          ''2024-05-01T09:15:00'' example_upload ''Custom Voice'' [] ''en'' example_state))
     = [default_voice ''2024-05-01T09:00:00'', example_voice]
   \<and> path_exists
         (disk (snd (upload_voice example_base ''3d6f0a1e-5b7c-4e2d-9f80-1a2b3c4d5e6f''
            ''2024-05-01T09:15:00'' example_upload ''Custom Voice'' [] ''en'' example_state)))
         [''srv'', ''backend'', ''storage'', ''voices'',
          ''3d6f0a1e-5b7c-4e2d-9f80-1a2b3c4d5e6f.wav''] = Inr True
   \<and> v_sample_rate example_voice = Some 22050"
proof -
  have fresh: "''3d6f0a1e-5b7c-4e2d-9f80-1a2b3c4d5e6f''
                 \<notin> set (map v_id (get_voices example_state))"
    by (simp add: get_voices_def example_state_def default_voice_def)
  from upload_voice_valid [OF wf_example example_upload_valid example_uuid
      example_upload_accepted, of "''2024-05-01T09:15:00''" "''Custom Voice''" "[]" "''en''"]
  obtain voice extension where
    "fst (upload_voice example_base ''3d6f0a1e-5b7c-4e2d-9f80-1a2b3c4d5e6f''
          ''2024-05-01T09:15:00'' example_upload ''Custom Voice'' [] ''en'' example_state)
       = Inr voice"
    and "''3d6f0a1e-5b7c-4e2d-9f80-1a2b3c4d5e6f'' \<notin> set (map v_id (get_voices example_state))
         \<longrightarrow> get_voices (snd (upload_voice example_base ''3d6f0a1e-5b7c-4e2d-9f80-1a2b3c4d5e6f''
          ''2024-05-01T09:15:00'' example_upload ''Custom Voice'' [] ''en'' example_state))
       = get_voices example_state @ [voice]"
    and "extension
           = (case up_filename example_upload of
                None \<Rightarrow> ''.wav''
              | Some f \<Rightarrow>
                  if f = [] \<or> path_suffix (path_parts f) = [] then ''.wav''
                  else lower (path_suffix (path_parts f)))"
    and "path_exists
         (disk (snd (upload_voice example_base ''3d6f0a1e-5b7c-4e2d-9f80-1a2b3c4d5e6f''
            ''2024-05-01T09:15:00'' example_upload ''Custom Voice'' [] ''en'' example_state)))
         (VOICES_DIR example_base @ [''3d6f0a1e-5b7c-4e2d-9f80-1a2b3c4d5e6f'' @ extension])
           = Inr True"
    and "v_sample_rate voice = Some 22050"
    by blast
  moreover from this(1) have "voice = example_voice"
    by (simp add: example_upload_run)
  moreover from \<open>extension = _\<close> have "extension = ''.wav''"
    using file_extension_example by (simp add: file_extension_cases)
  moreover have "get_voices example_state = [default_voice ''2024-05-01T09:00:00'']"
    by (simp add: get_voices_def example_state_def)
  ultimately show ?thesis
    using fresh by (simp add: VOICES_DIR_def example_base_def)
qed

lemma file_extension_upper:
  "file_extension_of (example_upload\<lparr>up_filename := Some ''A.WAV''\<rparr>) = ''.wav''"
  "path_suffix (path_parts ''A.WAV'') = ''.WAV''"
proof -
  have "path_parts ''A.WAV'' = [''A.WAV'']"
    by (rule path_parts_single) simp_all
  then show suffix: "path_suffix (path_parts ''A.WAV'') = ''.WAV''"
    by (simp add: path_suffix_def path_name_def)
  have "lower ''.WAV'' = ''.wav''"
    by code_simp
  with suffix show "file_extension_of (example_upload\<lparr>up_filename := Some ''A.WAV''\<rparr>) = ''.wav''"
    by (simp add: file_extension_of_def)
qed

lemma upload_upper_case_name:
  "fst (upload_voice example_base ''3d6f0a1e-5b7c-4e2d-9f80-1a2b3c4d5e6f''
          ''2024-05-01T09:15:00'' (example_upload\<lparr>up_filename := Some ''A.WAV''\<rparr>)
          ''Custom Voice'' [] ''en'' example_state)
     = Inr example_voice"
  "path_exists
     (disk (snd (upload_voice example_base ''3d6f0a1e-5b7c-4e2d-9f80-1a2b3c4d5e6f''
        ''2024-05-01T09:15:00'' (example_upload\<lparr>up_filename := Some ''A.WAV''\<rparr>)
        ''Custom Voice'' [] ''en'' example_state)))
     (VOICES_DIR example_base @ [''3d6f0a1e-5b7c-4e2d-9f80-1a2b3c4d5e6f'' @ ''.WAV''])
   = Inr False"
proof -
  let ?upper = "[''srv'', ''backend'', ''storage'', ''voices''] @ [''3d6f0a1e-5b7c-4e2d-9f80-1a2b3c4d5e6f.WAV'']"
  have ok: "storage_ok example_base (disk example_state)"
    using wf_example by (simp add: wf_state_def)
  have valid: "validate_audio_file (example_upload\<lparr>up_filename := Some ''A.WAV''\<rparr>)"
    by (simp add: validate_audio_file_def valid_types_def example_upload_def)
  have accepted:
    "os_accepts (VOICES_DIR example_base
       @ [''3d6f0a1e-5b7c-4e2d-9f80-1a2b3c4d5e6f''
            @ file_extension_of (example_upload\<lparr>up_filename := Some ''A.WAV''\<rparr>)])"
    using example_upload_accepted by (simp add: file_extension_upper file_extension_example)
  note run = upload_voice_success [OF ok valid example_uuid accepted,
      of "''2024-05-01T09:15:00''" "''Custom Voice''" "[]" "''en''"]
  show "fst (upload_voice example_base ''3d6f0a1e-5b7c-4e2d-9f80-1a2b3c4d5e6f''
          ''2024-05-01T09:15:00'' (example_upload\<lparr>up_filename := Some ''A.WAV''\<rparr>)
          ''Custom Voice'' [] ''en'' example_state)
     = Inr example_voice"
    by (simp add: run file_extension_upper) (simp add: example_voice_def VOICES_DIR_def
        example_base_def)
  have "os_accepts ?upper"
    by (rule os_accepts_example) (simp_all add: utf8_length_def)
  moreover have "''..'' \<notin> set ?upper"
    by simp
  ultimately have "path_exists d ?upper = Inr (d ?upper \<noteq> None)" for d
    by (rule path_exists_plain [rotated])
  moreover
  have "disk (snd (upload_voice example_base ''3d6f0a1e-5b7c-4e2d-9f80-1a2b3c4d5e6f''
            ''2024-05-01T09:15:00'' (example_upload\<lparr>up_filename := Some ''A.WAV''\<rparr>)
            ''Custom Voice'' [] ''en'' example_state)) ?upper = None"
    by (simp add: run file_extension_upper)
      (simp add: VOICES_DIR_def example_base_def example_state_def)
  ultimately show "path_exists
     (disk (snd (upload_voice example_base ''3d6f0a1e-5b7c-4e2d-9f80-1a2b3c4d5e6f''
        ''2024-05-01T09:15:00'' (example_upload\<lparr>up_filename := Some ''A.WAV''\<rparr>)
        ''Custom Voice'' [] ''en'' example_state)))
     (VOICES_DIR example_base @ [''3d6f0a1e-5b7c-4e2d-9f80-1a2b3c4d5e6f'' @ ''.WAV''])
   = Inr False"
    by (simp add: VOICES_DIR_def example_base_def)
qed

lemma upload_same_id:
  "fst (upload_voice example_base ''3d6f0a1e-5b7c-4e2d-9f80-1a2b3c4d5e6f''
          ''2024-05-01T09:20:00'' example_upload ''Second Voice'' [] ''en'' example_uploaded)
     = Inr (example_voice\<lparr>v_name := ''Second Voice'', v_created_at := ''2024-05-01T09:20:00''\<rparr>)"
  "get_voices
     (snd (upload_voice example_base ''3d6f0a1e-5b7c-4e2d-9f80-1a2b3c4d5e6f''
             ''2024-05-01T09:20:00'' example_upload ''Second Voice'' [] ''en'' example_uploaded))
     = [default_voice ''2024-05-01T09:00:00'',
        example_voice\<lparr>v_name := ''Second Voice'', v_created_at := ''2024-05-01T09:20:00''\<rparr>]"
proof -
  have ok: "storage_ok example_base (disk example_uploaded)"
    using wf_example_uploaded by (simp add: wf_state_def)
  note run = upload_voice_success [OF ok example_upload_valid example_uuid
      example_upload_accepted, of "''2024-05-01T09:20:00''" "''Second Voice''" "[]" "''en''"]
  have second: "\<lparr>v_id = ''3d6f0a1e-5b7c-4e2d-9f80-1a2b3c4d5e6f'', v_name = ''Second Voice'',
                  v_description = [], v_language = ''en'',
                  v_created_at = ''2024-05-01T09:20:00'',
                  v_file_path = Some (VOICES_DIR example_base
                     @ [''3d6f0a1e-5b7c-4e2d-9f80-1a2b3c4d5e6f'' @ ''.wav'']),
                  v_duration = Some 10, v_sample_rate = Some 22050\<rparr>
                = example_voice\<lparr>v_name := ''Second Voice'',
                                 v_created_at := ''2024-05-01T09:20:00''\<rparr>"
    by (simp add: example_voice_def VOICES_DIR_def example_base_def)
  show "fst (upload_voice example_base ''3d6f0a1e-5b7c-4e2d-9f80-1a2b3c4d5e6f''
          ''2024-05-01T09:20:00'' example_upload ''Second Voice'' [] ''en'' example_uploaded)
     = Inr (example_voice\<lparr>v_name := ''Second Voice'', v_created_at := ''2024-05-01T09:20:00''\<rparr>)"
    using second by (simp add: run file_extension_example)
  have "voices_db example_uploaded
          = [(''default'', default_voice ''2024-05-01T09:00:00''),
             (''3d6f0a1e-5b7c-4e2d-9f80-1a2b3c4d5e6f'', example_voice)]"
    by (simp add: example_uploaded_state example_state_def)
  then show "get_voices
     (snd (upload_voice example_base ''3d6f0a1e-5b7c-4e2d-9f80-1a2b3c4d5e6f''
             ''2024-05-01T09:20:00'' example_upload ''Second Voice'' [] ''en'' example_uploaded))
     = [default_voice ''2024-05-01T09:00:00'',
        example_voice\<lparr>v_name := ''Second Voice'', v_created_at := ''2024-05-01T09:20:00''\<rparr>]"
    using second by (simp add: run file_extension_example get_voices_def)
qed

lemma upload_long_extension:
  "upload_voice example_base ''3d6f0a1e-5b7c-4e2d-9f80-1a2b3c4d5e6f'' ''2024-05-01T09:15:00''
     (example_upload\<lparr>up_filename := Some (''a.'' @ replicate 300 CHR ''x'')\<rparr>)
     ''Custom Voice'' [] ''en'' example_state
   = (Inl (HTTPException 500
             (''Failed to upload voice: ''
                @ str_os_error
                    (FileNameTooLong
                       (VOICES_DIR example_base
                          @ [''3d6f0a1e-5b7c-4e2d-9f80-1a2b3c4d5e6f.''
                               @ replicate 300 CHR ''x''])))),
      example_state)"
proof -
  let ?file = "example_upload\<lparr>up_filename := Some (''a.'' @ replicate 300 CHR ''x'')\<rparr>"
  have ok: "storage_ok example_base (disk example_state)"
    using wf_example by (simp add: wf_state_def)
  have valid: "validate_audio_file ?file"
    by (simp add: validate_audio_file_def valid_types_def example_upload_def)
  have "path_parts (''a.'' @ replicate 300 CHR ''x'') = [''a.'' @ replicate 300 CHR ''x'']"
    by (rule path_parts_single) simp_all
  moreover have "path_suffix ([] @ [''a'' @ CHR ''.'' # replicate 300 CHR ''x''])
                   = CHR ''.'' # replicate 300 CHR ''x''"
    by (rule path_suffix_extension) simp_all
  moreover have "lower (CHR ''.'' # replicate 300 CHR ''x'') = CHR ''.'' # replicate 300 CHR ''x''"
    by (simp add: lower_def lower_char_def)
  ultimately have extension: "file_extension_of ?file = CHR ''.'' # replicate 300 CHR ''x''"
    by (simp add: file_extension_of_def)
  have size: "utf8_length (''3d6f0a1e-5b7c-4e2d-9f80-1a2b3c4d5e6f'' @ file_extension_of ?file)
                = 337"
    unfolding extension
    by (simp add: utf8_length_append utf8_length_Cons utf8_length_Nil utf8_length_replicate)
  have short: "\<forall>c \<in> set (VOICES_DIR example_base). utf8_length c \<le> NAME_MAX"
    by (simp add: VOICES_DIR_def example_base_def utf8_length_def NAME_MAX_def)
  have long: "NAME_MAX < utf8_length (''3d6f0a1e-5b7c-4e2d-9f80-1a2b3c4d5e6f''
                                         @ file_extension_of ?file)"
    using size by (simp add: NAME_MAX_def)
  have "check_path ([''srv'', ''backend'', ''storage'', ''voices'']
           @ [''3d6f0a1e-5b7c-4e2d-9f80-1a2b3c4d5e6f'' @ file_extension_of ?file]) = None"
    by (rule check_path_example) (use size in simp, unfold extension, simp)
  then have checked: "check_path (VOICES_DIR example_base
           @ [''3d6f0a1e-5b7c-4e2d-9f80-1a2b3c4d5e6f'' @ file_extension_of ?file]) = None"
    by (simp add: VOICES_DIR_def example_base_def)
  from upload_voice_name_too_long [OF ok valid example_uuid short long checked,
      of "''2024-05-01T09:15:00''" "''Custom Voice''" "[]" "''en''"]
  show ?thesis
    unfolding extension by simp
qed

text \<open>
  Claim C5 as stated fails at three uploads with an accepted content type. A file named
  \<^verbatim>\<open>A.WAV\<close> has the original extension \<^verbatim>\<open>.WAV\<close> but is written under the id followed
  by \<^verbatim>\<open>.wav\<close>, and no file named by the id followed by \<^verbatim>\<open>.WAV\<close> exists after the
  call. An upload for which \<^verbatim>\<open>uuid4\<close> draws the id of a stored voice is given that id,
  which is not fresh, and takes the place of the stored record. A file name with an
  extension of 300 letters is refused by the file system: the answer is 500, and no
  record and no file exist after the call.
\<close>

theorem upload_voice_not_as_claimed:
  "path_suffix (path_parts ''A.WAV'') = ''.WAV''
   \<and> fst (upload_voice example_base ''3d6f0a1e-5b7c-4e2d-9f80-1a2b3c4d5e6f''
          ''2024-05-01T09:15:00'' (example_upload\<lparr>up_filename := Some ''A.WAV''\<rparr>)
          ''Custom Voice'' [] ''en'' example_state)
     = Inr example_voice
   \<and> v_file_path example_voice
     = Some (VOICES_DIR example_base @ [''3d6f0a1e-5b7c-4e2d-9f80-1a2b3c4d5e6f'' @ ''.wav''])
   \<and> path_exists
         (disk (snd (upload_voice example_base ''3d6f0a1e-5b7c-4e2d-9f80-1a2b3c4d5e6f''
            ''2024-05-01T09:15:00'' (example_upload\<lparr>up_filename := Some ''A.WAV''\<rparr>)
            ''Custom Voice'' [] ''en'' example_state)))
         (VOICES_DIR example_base @ [''3d6f0a1e-5b7c-4e2d-9f80-1a2b3c4d5e6f'' @ ''.WAV''])
       = Inr False
   \<and> get_voices example_uploaded = [default_voice ''2024-05-01T09:00:00'', example_voice]
   \<and> v_id example_voice = ''3d6f0a1e-5b7c-4e2d-9f80-1a2b3c4d5e6f''
   \<and> fst (upload_voice example_base ''3d6f0a1e-5b7c-4e2d-9f80-1a2b3c4d5e6f''
          ''2024-05-01T09:20:00'' example_upload ''Second Voice'' [] ''en'' example_uploaded)
     = Inr (example_voice\<lparr>v_name := ''Second Voice'', v_created_at := ''2024-05-01T09:20:00''\<rparr>)
   \<and> get_voices
       (snd (upload_voice example_base ''3d6f0a1e-5b7c-4e2d-9f80-1a2b3c4d5e6f''
               ''2024-05-01T09:20:00'' example_upload ''Second Voice'' [] ''en''
               example_uploaded))
     = [default_voice ''2024-05-01T09:00:00'',
        example_voice\<lparr>v_name := ''Second Voice'', v_created_at := ''2024-05-01T09:20:00''\<rparr>]
   \<and> validate_audio_file
       (example_upload\<lparr>up_filename := Some (''a.'' @ replicate 300 CHR ''x'')\<rparr>)
   \<and> upload_voice example_base ''3d6f0a1e-5b7c-4e2d-9f80-1a2b3c4d5e6f'' ''2024-05-01T09:15:00''
       (example_upload\<lparr>up_filename := Some (''a.'' @ replicate 300 CHR ''x'')\<rparr>)
       ''Custom Voice'' [] ''en'' example_state
     = (Inl (HTTPException 500
               (''Failed to upload voice: ''
                  @ str_os_error
                      (FileNameTooLong
                         (VOICES_DIR example_base
                            @ [''3d6f0a1e-5b7c-4e2d-9f80-1a2b3c4d5e6f.''
                                 @ replicate 300 CHR ''x''])))),
        example_state)"
proof -
  have "v_file_path example_voice
     = Some (VOICES_DIR example_base @ [''3d6f0a1e-5b7c-4e2d-9f80-1a2b3c4d5e6f'' @ ''.wav''])"
    and "v_id example_voice = ''3d6f0a1e-5b7c-4e2d-9f80-1a2b3c4d5e6f''"
    by (simp_all add: example_voice_def VOICES_DIR_def example_base_def)
  moreover have "validate_audio_file
       (example_upload\<lparr>up_filename := Some (''a.'' @ replicate 300 CHR ''x'')\<rparr>)"
    by (simp add: validate_audio_file_def valid_types_def example_upload_def)
  ultimately show ?thesis
    using file_extension_upper(2) upload_upper_case_name example_uploaded_listing
      upload_same_id upload_long_extension
    by (intro conjI)
qed

subsection \<open>Delete\<close>

lemma registry_file_path:
  assumes "registry_ok base db" and "map_of db k = Some v" and "v_file_path v = Some p"
  shows "\<exists>n. n \<noteq> ''..'' \<and> p = VOICES_DIR base @ [n] \<and> os_accepts p"
proof -
  from assms(2) have "(k, v) \<in> set db"
    by (rule map_of_SomeD)
  with assms(1,3) have "p \<noteq> []" and "butlast p = VOICES_DIR base" and "last p \<noteq> ''..''"
    and "os_accepts p"
    by (auto simp: registry_ok_def)
  then have "last p \<noteq> ''..'' \<and> p = VOICES_DIR base @ [last p] \<and> os_accepts p"
    using append_butlast_last_id [of p] by simp
  then show ?thesis ..
qed

lemma remove_if_exists:
  assumes "''..'' \<notin> set p" and "os_accepts p" and "d p \<noteq> Some Dir"
  shows "(case path_exists d p of
            Inl e \<Rightarrow> Inl e
          | Inr True \<Rightarrow> unlink d p
          | Inr False \<Rightarrow> Inr d) = Inr (d(p := None))"
proof (cases "d p")
  case None
  then have "d(p := None) = d"
    by (simp add: fun_upd_idem_iff)
  with None show ?thesis
    by (simp add: path_exists_plain [OF assms(1,2)])
next
  case (Some n)
  with assms(3) obtain x where "d p = Some (File x)"
    by (cases n) auto
  then show ?thesis
    by (simp add: path_exists_plain [OF assms(1,2)] unlink_def stat_plain [OF assms(1,2)]
        resolve_plain [OF assms(1,2)])
qed

lemma delete_voice_success:
  assumes "wf_state base st" and "map_of (voices_db st) voice_id = Some voice"
  shows "delete_voice voice_id st
           = (Inr (''Voice '' @ quote (v_name voice) @ '' deleted successfully''),
              st\<lparr>voices_db := AList.delete voice_id (voices_db st),
                 disk := (case v_file_path voice of
                            None \<Rightarrow> disk st
                          | Some p \<Rightarrow> (disk st)(p := None))\<rparr>)"
proof (cases "v_file_path voice")
  case None
  with assms(2) show ?thesis
    by (simp add: delete_voice_def)
next
  case (Some p)
  from assms(1) have ok: "storage_ok base (disk st)" and reg: "registry_ok base (voices_db st)"
    by (simp_all add: wf_state_def)
  from registry_file_path [OF reg assms(2) Some]
  obtain n where n: "n \<noteq> ''..''" "p = VOICES_DIR base @ [n]" and accepted: "os_accepts p"
    by blast
  with ok have "''..'' \<notin> set p" and "disk st p \<noteq> Some Dir"
    by (auto simp: storage_ok_def VOICES_DIR_def)
  with accepted
  have "(case path_exists (disk st) p of
           Inl e \<Rightarrow> Inl e
         | Inr True \<Rightarrow> unlink (disk st) p
         | Inr False \<Rightarrow> Inr (disk st)) = Inr ((disk st)(p := None))"
    by (intro remove_if_exists)
  with assms(2) Some show ?thesis
    by (simp add: delete_voice_def)
qed

lemma wf_delete:
  assumes "wf_state base st"
  shows "wf_state base (snd (delete_voice voice_id st))"
proof (cases "map_of (voices_db st) voice_id")
  case None
  with assms show ?thesis
    by (simp add: delete_voice_def)
next
  case (Some voice)
  from assms have ok: "storage_ok base (disk st)" and reg: "registry_ok base (voices_db st)"
    and jobs: "jobs_ok (synthesis_cache st)"
    by (simp_all add: wf_state_def)
  show ?thesis
  proof (cases "v_file_path voice")
    case None
    with ok reg jobs show ?thesis
      by (simp add: delete_voice_success [OF assms Some] wf_state_def registry_ok_delete)
  next
    case (Some p)
    from registry_file_path [OF reg \<open>map_of (voices_db st) voice_id = Some voice\<close> Some]
    obtain n where "p = VOICES_DIR base @ [n]"
      by blast
    with Some ok reg jobs show ?thesis
      by (simp add: delete_voice_success [OF assms \<open>map_of (voices_db st) voice_id = Some voice\<close>]
          wf_state_def registry_ok_delete storage_ok_remove_voice)
  qed
qed

text \<open>
  Claim C3. Deleting an id that is not a key of the voice table is answered with 404 and
  changes nothing. In a well-formed state, deleting an id that is present succeeds
  whether or not the voice's file exists: the record is removed, so the id is gone from
  the listing and from lookup while every other record stays; the file, if the voice has
  one, does not exist afterwards and no other path of the disk is touched; deleting the
  same id again is answered with 404.
\<close>

theorem delete_voice_removes:
  "(voice_id \<notin> fst ` set (voices_db st) \<longrightarrow>
      delete_voice voice_id st = (Inl (voice_not_found voice_id), st)
      \<and> status_code (voice_not_found voice_id) = 404)
   \<and> (wf_state base st \<and> map_of (voices_db st) voice_id = Some voice \<longrightarrow>
        fst (delete_voice voice_id st)
          = Inr (''Voice '' @ quote (v_name voice) @ '' deleted successfully'')
      \<and> get_voices (snd (delete_voice voice_id st))
          = filter (\<lambda>v. v_id v \<noteq> voice_id) (get_voices st)
      \<and> voice_id \<notin> set (map v_id (get_voices (snd (delete_voice voice_id st))))
      \<and> get_voice voice_id (snd (delete_voice voice_id st)) = Inl (voice_not_found voice_id)
      \<and> (\<forall>p. v_file_path voice = Some p \<longrightarrow>
             path_exists (disk (snd (delete_voice voice_id st))) p = Inr False
             \<and> disk (snd (delete_voice voice_id st)) = (disk st)(p := None))
      \<and> (v_file_path voice = None \<longrightarrow> disk (snd (delete_voice voice_id st)) = disk st)
      \<and> delete_voice voice_id (snd (delete_voice voice_id st))
          = (Inl (voice_not_found voice_id), snd (delete_voice voice_id st)))"
proof (rule conjI)
  show "voice_id \<notin> fst ` set (voices_db st) \<longrightarrow>
      delete_voice voice_id st = (Inl (voice_not_found voice_id), st)
      \<and> status_code (voice_not_found voice_id) = 404"
  proof (intro impI conjI)
    assume "voice_id \<notin> fst ` set (voices_db st)"
    then have "map_of (voices_db st) voice_id = None"
      by (simp add: map_of_None_iff_not_key)
    then show "delete_voice voice_id st = (Inl (voice_not_found voice_id), st)"
      by (simp add: delete_voice_def)
    show "status_code (voice_not_found voice_id) = 404"
      by (rule status_voice_not_found)
  qed
next
  let ?st' = "snd (delete_voice voice_id st)"
  show "wf_state base st \<and> map_of (voices_db st) voice_id = Some voice \<longrightarrow>
        fst (delete_voice voice_id st)
          = Inr (''Voice '' @ quote (v_name voice) @ '' deleted successfully'')
      \<and> get_voices ?st' = filter (\<lambda>v. v_id v \<noteq> voice_id) (get_voices st)
      \<and> voice_id \<notin> set (map v_id (get_voices ?st'))
      \<and> get_voice voice_id ?st' = Inl (voice_not_found voice_id)
      \<and> (\<forall>p. v_file_path voice = Some p \<longrightarrow>
             path_exists (disk ?st') p = Inr False \<and> disk ?st' = (disk st)(p := None))
      \<and> (v_file_path voice = None \<longrightarrow> disk ?st' = disk st)
      \<and> delete_voice voice_id ?st' = (Inl (voice_not_found voice_id), ?st')"
  proof (rule impI)
    assume present: "wf_state base st \<and> map_of (voices_db st) voice_id = Some voice"
    then have wf: "wf_state base st" and voice: "map_of (voices_db st) voice_id = Some voice"
      by simp_all
    from wf have ok: "storage_ok base (disk st)" and reg: "registry_ok base (voices_db st)"
      by (simp_all add: wf_state_def)
    note run = delete_voice_success [OF wf voice]
    have db': "voices_db ?st' = AList.delete voice_id (voices_db st)"
      by (simp add: run)
    have gone: "map_of (voices_db ?st') voice_id = None"
      by (simp add: db' AList.delete_conv')
    have answer: "fst (delete_voice voice_id st)
            = Inr (''Voice '' @ quote (v_name voice) @ '' deleted successfully'')"
      by (simp add: run)
    have listing: "get_voices ?st' = filter (\<lambda>v. v_id v \<noteq> voice_id) (get_voices st)"
      by (simp add: get_voices_def db' registry_delete_values [OF reg])
    have unlisted: "voice_id \<notin> set (map v_id (get_voices ?st'))"
      by (auto simp: listing)
    have lookup: "get_voice voice_id ?st' = Inl (voice_not_found voice_id)"
      by (simp add: get_voice_def gone)
    have backing: "\<forall>p. v_file_path voice = Some p \<longrightarrow>
               path_exists (disk ?st') p = Inr False \<and> disk ?st' = (disk st)(p := None)"
    proof (intro allI impI)
      fix p assume p: "v_file_path voice = Some p"
      from registry_file_path [OF reg voice p]
      obtain n where "n \<noteq> ''..''" "p = VOICES_DIR base @ [n]" and accepted: "os_accepts p"
        by blast
      with ok have "''..'' \<notin> set p"
        by (auto simp: storage_ok_def VOICES_DIR_def)
      then have "path_exists d p = Inr (d p \<noteq> None)" for d
        using accepted by (rule path_exists_plain)
      then show "path_exists (disk ?st') p = Inr False \<and> disk ?st' = (disk st)(p := None)"
        by (simp add: run p)
    qed
    have no_file: "v_file_path voice = None \<longrightarrow> disk ?st' = disk st"
      by (simp add: run)
    have again: "delete_voice voice_id ?st' = (Inl (voice_not_found voice_id), ?st')"
      using gone by (simp add: delete_voice_def)
    from answer listing unlisted lookup backing no_file again
    show "fst (delete_voice voice_id st)
          = Inr (''Voice '' @ quote (v_name voice) @ '' deleted successfully'')
      \<and> get_voices ?st' = filter (\<lambda>v. v_id v \<noteq> voice_id) (get_voices st)
      \<and> voice_id \<notin> set (map v_id (get_voices ?st'))
      \<and> get_voice voice_id ?st' = Inl (voice_not_found voice_id)
      \<and> (\<forall>p. v_file_path voice = Some p \<longrightarrow>
             path_exists (disk ?st') p = Inr False \<and> disk ?st' = (disk st)(p := None))
      \<and> (v_file_path voice = None \<longrightarrow> disk ?st' = disk st)
      \<and> delete_voice voice_id ?st' = (Inl (voice_not_found voice_id), ?st')"
      by (intro conjI)
  qed
qed

theorem delete_voice_removes_witness:
  "delete_voice ''nobody'' example_state = (Inl (voice_not_found ''nobody''), example_state)
   \<and> fst (delete_voice ''3d6f0a1e-5b7c-4e2d-9f80-1a2b3c4d5e6f'' example_uploaded)
       = Inr (''Voice '' @ quote ''Custom Voice'' @ '' deleted successfully'')
   \<and> get_voices (snd (delete_voice ''3d6f0a1e-5b7c-4e2d-9f80-1a2b3c4d5e6f'' example_uploaded))
       = [default_voice ''2024-05-01T09:00:00'']
   \<and> path_exists
         (disk (snd (delete_voice ''3d6f0a1e-5b7c-4e2d-9f80-1a2b3c4d5e6f'' example_uploaded)))
         [''srv'', ''backend'', ''storage'', ''voices'',
          ''3d6f0a1e-5b7c-4e2d-9f80-1a2b3c4d5e6f.wav''] = Inr False
   \<and> fst (delete_voice ''3d6f0a1e-5b7c-4e2d-9f80-1a2b3c4d5e6f''
            (snd (delete_voice ''3d6f0a1e-5b7c-4e2d-9f80-1a2b3c4d5e6f'' example_uploaded)))
       = Inl (voice_not_found ''3d6f0a1e-5b7c-4e2d-9f80-1a2b3c4d5e6f'')"
proof -
  have absent: "''nobody'' \<notin> fst ` set (voices_db example_state)"
    by (simp add: example_state_def)
  have path: "v_file_path example_voice
                = Some [''srv'', ''backend'', ''storage'', ''voices'',
                        ''3d6f0a1e-5b7c-4e2d-9f80-1a2b3c4d5e6f.wav'']"
    and name: "v_name example_voice = ''Custom Voice''"
    and other: "v_id (default_voice ''2024-05-01T09:00:00'')
                  \<noteq> ''3d6f0a1e-5b7c-4e2d-9f80-1a2b3c4d5e6f''"
    and self: "v_id example_voice = ''3d6f0a1e-5b7c-4e2d-9f80-1a2b3c4d5e6f''"
    by (simp_all add: example_voice_def default_voice_def)
  from delete_voice_removes [of "''nobody''" example_state example_base example_voice] absent
  have first: "delete_voice ''nobody'' example_state
                 = (Inl (voice_not_found ''nobody''), example_state)"
    by simp
  from delete_voice_removes [of "''3d6f0a1e-5b7c-4e2d-9f80-1a2b3c4d5e6f''" example_uploaded
      example_base example_voice] wf_example_uploaded example_uploaded_voice
  have second:
    "fst (delete_voice ''3d6f0a1e-5b7c-4e2d-9f80-1a2b3c4d5e6f'' example_uploaded)
       = Inr (''Voice '' @ quote (v_name example_voice) @ '' deleted successfully'')"
    "get_voices (snd (delete_voice ''3d6f0a1e-5b7c-4e2d-9f80-1a2b3c4d5e6f'' example_uploaded))
       = filter (\<lambda>v. v_id v \<noteq> ''3d6f0a1e-5b7c-4e2d-9f80-1a2b3c4d5e6f'')
           (get_voices example_uploaded)"
    "\<forall>p. v_file_path example_voice = Some p \<longrightarrow>
        path_exists
            (disk (snd (delete_voice ''3d6f0a1e-5b7c-4e2d-9f80-1a2b3c4d5e6f''
                          example_uploaded))) p = Inr False"
    "delete_voice ''3d6f0a1e-5b7c-4e2d-9f80-1a2b3c4d5e6f''
       (snd (delete_voice ''3d6f0a1e-5b7c-4e2d-9f80-1a2b3c4d5e6f'' example_uploaded))
     = (Inl (voice_not_found ''3d6f0a1e-5b7c-4e2d-9f80-1a2b3c4d5e6f''),
        snd (delete_voice ''3d6f0a1e-5b7c-4e2d-9f80-1a2b3c4d5e6f'' example_uploaded))"
    by blast+
  show ?thesis
    using first second(3) path
    by (simp add: second(1,2,4) name example_uploaded_listing other self)
qed

text \<open>
  Claim C4. An upload whose declared content type is missing or is not one of
  \<^verbatim>\<open>audio/wav\<close>, \<^verbatim>\<open>audio/mpeg\<close>, \<^verbatim>\<open>audio/mp3\<close>, \<^verbatim>\<open>audio/ogg\<close>, \<^verbatim>\<open>audio/flac\<close> is answered
  with status 400 and leaves the state as it was: no voice record is registered.
\<close>

theorem upload_rejects_content_type:
  assumes "\<forall>t. up_content_type file = Some t \<longrightarrow>
             t \<notin> {''audio/wav'', ''audio/mpeg'', ''audio/mp3'', ''audio/ogg'', ''audio/flac''}"
  shows "upload_voice base uuid now file name description language st
           = (Inl (HTTPException 400
                     ''Invalid audio file. Supported formats: WAV, MP3, OGG, FLAC''), st)
         \<and> voices_db (snd (upload_voice base uuid now file name description language st))
             = voices_db st"
proof -
  from assms have "\<not> validate_audio_file file"
    by (auto simp: validate_audio_file_def valid_types_def split: option.splits)
  then show ?thesis
    by (simp add: upload_voice_def HTTP_400_BAD_REQUEST_def)
qed

theorem upload_rejects_content_type_witness:
  "upload_voice example_base ''3d6f0a1e-5b7c-4e2d-9f80-1a2b3c4d5e6f'' ''2024-05-01T09:15:00''
     (example_upload\<lparr>up_content_type := Some ''text/plain''\<rparr>) ''Custom Voice'' [] ''en''
     example_state
   = (Inl (HTTPException 400
             ''Invalid audio file. Supported formats: WAV, MP3, OGG, FLAC''), example_state)"
proof -
  have not_audio:
    "\<forall>t. up_content_type (example_upload\<lparr>up_content_type := Some ''text/plain''\<rparr>) = Some t
        \<longrightarrow> t \<notin> {''audio/wav'', ''audio/mpeg'', ''audio/mp3'', ''audio/ogg'', ''audio/flac''}"
    by simp
  from upload_rejects_content_type [OF not_audio] show ?thesis
    by (rule conjunct1)
qed

text \<open>
  Claim C10. The record returned by a successful upload, which is also the record
  stored under its id, has duration 10.0: the placeholder \<^verbatim>\<open>get_audio_duration\<close> returns
  that constant for every path and never \<^verbatim>\<open>None\<close>.
\<close>

theorem upload_duration_placeholder:
  assumes "fst (upload_voice base uuid now file name description language st) = Inr voice"
  shows "v_duration voice = Some 10
         \<and> map_of (voices_db (snd (upload_voice base uuid now file name description
                                      language st))) (v_id voice) = Some voice
         \<and> get_audio_duration file_path = Some 10"
proof -
  note result = upload_voice_result [OF assms]
  from result have "v_duration voice = Some 10"
    by (elim conjE) (erule ssubst, simp)
  moreover from result have "v_id voice = uuid"
    by (elim conjE) (erule ssubst, simp)
  moreover from result
  have "voices_db (snd (upload_voice base uuid now file name description language st))
          = AList.update uuid voice (voices_db st)"
    by (elim conjE)
  ultimately show ?thesis
    by (simp add: AList.update_conv' get_audio_duration_def)
qed

theorem upload_duration_placeholder_witness:
  "fst (upload_voice example_base ''3d6f0a1e-5b7c-4e2d-9f80-1a2b3c4d5e6f''
          ''2024-05-01T09:15:00'' example_upload ''Custom Voice'' [] ''en'' example_state)
     = Inr example_voice
   \<and> v_duration example_voice = Some 10"
  using upload_duration_placeholder [OF example_upload_run] example_upload_run
  by simp

section \<open>The invariant\<close>

lemma audio_file_path:
  assumes "is_uuid_str uuid"
  shows "path_join (AUDIO_DIR base) (''synthesis_'' @ uuid @ ''.txt'')
           = AUDIO_DIR base @ [''synthesis_'' @ uuid @ ''.txt'']"
    and "''synthesis_'' @ uuid @ ''.txt'' \<noteq> ''..''"
  using uuid_file_name [OF assms, of "''synthesis_''" "''.txt''"]
  by (simp_all add: path_join_single)

lemma audio_file_plain:
  assumes "storage_ok base d" and "is_uuid_str uuid"
  shows "''..'' \<notin> set (AUDIO_DIR base @ [''synthesis_'' @ uuid @ ''.txt''])"
proof -
  have "''synthesis_'' @ uuid @ ''.txt'' \<noteq> ''..''"
    by (rule audio_file_path(2) [OF assms(2)])
  with assms(1) show ?thesis
    by (auto simp: storage_ok_def AUDIO_DIR_def)
qed

lemma synthesize_speech_success:
  assumes "storage_ok base (disk st)" and "is_uuid_str file_uuid"
    and "map_of (voices_db st) (req_voice_id request) \<noteq> None"
    and "os_accepts (AUDIO_DIR base @ [''synthesis_'' @ file_uuid @ ''.txt''])"
  shows "synthesize_speech base file_uuid file_now job_uuid job_now request st
           = (Inr \<lparr>s_id = job_uuid,
                    s_audio_url = ''/audio/'' @ ''synthesis_'' @ file_uuid @ ''.txt'',
                    s_duration =
                      Some (float_mul (float_of_nat (length (req_text request))) float_0_1),
                    s_voice_id = req_voice_id request, s_text = req_text request,
                    s_created_at = job_now\<rparr>,
              st\<lparr>synthesis_cache :=
                   AList.update job_uuid
                     \<lparr>s_id = job_uuid,
                      s_audio_url = ''/audio/'' @ ''synthesis_'' @ file_uuid @ ''.txt'',
                      s_duration =
                        Some (float_mul (float_of_nat (length (req_text request)))
                                float_0_1),
                      s_voice_id = req_voice_id request, s_text = req_text request,
                      s_created_at = job_now\<rparr>
                     (synthesis_cache st),
                 disk := (disk st)(AUDIO_DIR base @ [''synthesis_'' @ file_uuid @ ''.txt'']
                            \<mapsto> File (Placeholder file_uuid (req_text request)
                                       (req_voice_id request) (req_speed request)
                                       (req_pitch request) file_now))\<rparr>)"
proof -
  let ?p = "AUDIO_DIR base @ [''synthesis_'' @ file_uuid @ ''.txt'']"
  note name = audio_file_path [OF assms(2)]
  note plain = audio_file_plain [OF assms(1,2)]
  from assms(1,4) plain
  have "write_file (disk st) ?p c = Inr ((disk st)(?p \<mapsto> File c))" for c
    by (intro write_file_child) (simp_all add: storage_ok_def)
  then show ?thesis
    using assms(3) name(1)
    by (simp add: synthesize_speech_def generate_synthesis_audio_def Let_def path_name_def)
qed

lemma synthesize_speech_refused:
  assumes "storage_ok base (disk st)" and "is_uuid_str file_uuid"
    and "\<not> os_accepts (AUDIO_DIR base @ [''synthesis_'' @ file_uuid @ ''.txt''])"
  shows "\<exists>e. synthesize_speech base file_uuid file_now job_uuid job_now request st
               = (Inl e, st)"
proof -
  let ?p = "AUDIO_DIR base @ [''synthesis_'' @ file_uuid @ ''.txt'']"
  note name = audio_file_path [OF assms(2)]
  from write_file_refused [OF audio_file_plain [OF assms(1,2)] assms(3)]
  obtain e where "write_file (disk st) ?p
                    (Placeholder file_uuid (req_text request) (req_voice_id request)
                       (req_speed request) (req_pitch request) file_now) = Inl e"
    by blast
  then show ?thesis
    using name(1) by (simp add: synthesize_speech_def generate_synthesis_audio_def Let_def)
qed

lemma wf_synthesize:
  assumes "wf_state base st" and "is_uuid_str file_uuid"
  shows "wf_state base
           (snd (synthesize_speech base file_uuid file_now job_uuid job_now request st))"
proof (cases "map_of (voices_db st) (req_voice_id request) = None")
  case True
  with assms(1) show ?thesis
    by (simp add: synthesize_speech_def)
next
  case False
  from assms(1) have ok: "storage_ok base (disk st)"
    by (simp add: wf_state_def)
  show ?thesis
  proof (cases "os_accepts (AUDIO_DIR base @ [''synthesis_'' @ file_uuid @ ''.txt''])")
    case True
    show ?thesis
      using assms(1)
      by (simp add: synthesize_speech_success [OF ok assms(2) False True] wf_state_def
          storage_ok_write_audio jobs_ok_update)
  next
    case False
    from synthesize_speech_refused [OF ok assms(2) this]
    obtain e where "synthesize_speech base file_uuid file_now job_uuid job_now request st
                      = (Inl e, st)"
      by blast
    with assms(1) show ?thesis
      by simp
  qed
qed

text \<open>
  Start-up establishes the invariant on any disk that has no directory where a voice or
  an artifact file would go.
\<close>

lemma mkdir_from_step:
  assumes "c \<noteq> ''..''" and "mkdir_from p cur (c # cs) d = Inr d'"
  shows "mkdir_from p (cur @ [c]) cs d = Inr d' \<and> d cur = Some Dir
         \<or> mkdir_from p (cur @ [c]) cs (d(cur \<mapsto> Dir)) = Inr d' \<and> d cur = None"
  using assms by (cases "d cur") (auto split: node.splits if_splits)

lemma mkdir_from_target:
  "''..'' \<notin> set cs \<Longrightarrow> mkdir_from p cur cs d = Inr d' \<Longrightarrow> d' (cur @ cs) = Some Dir"
proof (induction cs arbitrary: cur d)
  case Nil
  then show ?case
    by (auto split: option.splits node.splits)
next
  case (Cons c cs)
  then have "c \<noteq> ''..''" and rest: "''..'' \<notin> set cs"
    by auto
  from mkdir_from_step [OF this(1) Cons.prems(2)]
  obtain d0 where "mkdir_from p (cur @ [c]) cs d0 = Inr d'"
    by blast
  with rest have "d' ((cur @ [c]) @ cs) = Some Dir"
    by (rule Cons.IH)
  then show ?case
    by simp
qed

lemma mkdir_from_keeps:
  "''..'' \<notin> set cs \<Longrightarrow> mkdir_from p cur cs d = Inr d' \<Longrightarrow> d q = Some Dir
     \<Longrightarrow> d' q = Some Dir"
proof (induction cs arbitrary: cur d)
  case Nil
  then show ?case
    by (auto split: option.splits node.splits)
next
  case (Cons c cs)
  then have "c \<noteq> ''..''" and rest: "''..'' \<notin> set cs"
    by auto
  from mkdir_from_step [OF this(1) Cons.prems(2)]
  consider "mkdir_from p (cur @ [c]) cs d = Inr d'"
    | "mkdir_from p (cur @ [c]) cs (d(cur \<mapsto> Dir)) = Inr d'"
    by blast
  then show ?case
  proof cases
    case 1
    with rest show ?thesis
      using Cons.prems(3) by (rule Cons.IH)
  next
    case 2
    moreover from Cons.prems(3) have "(d(cur \<mapsto> Dir)) q = Some Dir"
      by simp
    ultimately show ?thesis
      using rest by (intro Cons.IH)
  qed
qed

lemma mkdir_from_new:
  "''..'' \<notin> set cs \<Longrightarrow> mkdir_from p cur cs d = Inr d' \<Longrightarrow> d' q = Some Dir \<Longrightarrow>
   d q = Some Dir \<or> length q \<le> length cur + length cs"
proof (induction cs arbitrary: cur d)
  case Nil
  then show ?case
    by (auto split: option.splits node.splits if_splits)
next
  case (Cons c cs)
  then have "c \<noteq> ''..''" and rest: "''..'' \<notin> set cs"
    by auto
  from mkdir_from_step [OF this(1) Cons.prems(2)]
  consider "mkdir_from p (cur @ [c]) cs d = Inr d'"
    | "mkdir_from p (cur @ [c]) cs (d(cur \<mapsto> Dir)) = Inr d'"
    by blast
  then show ?case
  proof cases
    case 1
    from Cons.IH [OF rest this Cons.prems(3)] show ?thesis
      by auto
  next
    case 2
    from Cons.IH [OF rest this Cons.prems(3)] show ?thesis
      by (auto split: if_splits)
  qed
qed

lemma wf_boot:
  assumes "''..'' \<notin> set base" and "boot base now d = Some st"
    and "\<forall>n. d (VOICES_DIR base @ [n]) \<noteq> Some Dir"
    and "\<forall>n. d (AUDIO_DIR base @ [n]) \<noteq> Some Dir"
  shows "wf_state base st"
proof -
  have plain: "''..'' \<notin> set (VOICES_DIR base)" "''..'' \<notin> set (AUDIO_DIR base)"
    "''..'' \<notin> set (TEMP_DIR base)"
    using assms(1) by (simp_all add: VOICES_DIR_def AUDIO_DIR_def TEMP_DIR_def)
  from assms(2) obtain d1 d2 d3 where
    m1: "mkdir_from (VOICES_DIR base) [] (VOICES_DIR base) d = Inr d1"
    and m2: "mkdir_from (AUDIO_DIR base) [] (AUDIO_DIR base) d1 = Inr d2"
    and m3: "mkdir_from (TEMP_DIR base) [] (TEMP_DIR base) d2 = Inr d3"
    and st: "st = startup_event now \<lparr>voices_db = [], synthesis_cache = [], disk = d3\<rparr>"
    by (auto simp: boot_def ensure_directories_def mkdir_parents_def
        split: sum.splits option.splits)
  have voices: "d3 (VOICES_DIR base) = Some Dir"
    using mkdir_from_target [OF plain(1) m1] mkdir_from_keeps [OF plain(2) m2]
      mkdir_from_keeps [OF plain(3) m3]
    by simp
  have audio: "d3 (AUDIO_DIR base) = Some Dir"
    using mkdir_from_target [OF plain(2) m2] mkdir_from_keeps [OF plain(3) m3] by simp
  have child: "d3 q \<noteq> Some Dir" if "d q \<noteq> Some Dir" and "length q = length base + 3" for q
  proof
    assume "d3 q = Some Dir"
    from mkdir_from_new [OF plain(3) m3 this] that(2) have "d2 q = Some Dir"
      by (simp add: TEMP_DIR_def)
    from mkdir_from_new [OF plain(2) m2 this] that(2) have "d1 q = Some Dir"
      by (simp add: AUDIO_DIR_def)
    from mkdir_from_new [OF plain(1) m1 this] that show False
      by (simp add: VOICES_DIR_def)
  qed
  have "d3 (VOICES_DIR base @ [n]) \<noteq> Some Dir" for n
    using assms(3) by (intro child) (simp_all add: VOICES_DIR_def)
  moreover have "d3 (AUDIO_DIR base @ [n]) \<noteq> Some Dir" for n
    using assms(4) by (intro child) (simp_all add: AUDIO_DIR_def)
  ultimately have "storage_ok base d3"
    using assms(1) voices audio by (simp add: storage_ok_def)
  then show ?thesis
    by (simp add: st wf_state_def startup_event_def registry_ok_def jobs_ok_def
        default_voice_def)
qed

section \<open>Properties of the audio file server\<close>

lemma serve_audio_path_relative:
  "\<not> is_absolute filename \<Longrightarrow>
   serve_audio_path base filename = AUDIO_DIR base @ path_parts filename"
  by (simp add: serve_audio_path_def path_join_def)

lemma plain_name_parts:
  assumes "CHR ''/'' \<notin> set filename" and "filename \<notin> {[], ''.'', ''..''}"
  shows "path_parts filename = [filename]" and "\<not> is_absolute filename"
  using assms by (auto simp: path_parts_single is_absolute_def split: list.splits)

lemma one_segment_parts:
  "CHR ''/'' \<notin> set filename \<Longrightarrow> path_parts filename \<noteq> [] \<Longrightarrow> path_parts filename = [filename]"
  by (auto simp: path_parts_def split_slash_no_slash split: if_splits)

text \<open>
  Claim C6, amended. \<^verbatim>\<open>serve_audio\<close> joins the audio directory and the file name
  without checking where the result points. When the install directory is a resolved
  path, the name is relative, has at least one component and no \<^verbatim>\<open>..\<close> component, and
  the operating system accepts the joined path, that path resolves to itself and lies
  strictly inside the audio directory (for a name of one segment it is the entry of that
  name in the audio directory); the answer is 404 when the disk holds nothing there, and
  otherwise a response for exactly that path under the requested name.
\<close>

theorem serve_audio_confined:
  assumes "''..'' \<notin> set base" and "\<not> is_absolute filename" and "path_parts filename \<noteq> []"
    and "''..'' \<notin> set (path_parts filename)"
    and "os_accepts (AUDIO_DIR base @ path_parts filename)"
  shows "serve_audio_path base filename = AUDIO_DIR base @ path_parts filename
         \<and> resolve (disk st) (serve_audio_path base filename)
             = Inr (AUDIO_DIR base @ path_parts filename)
         \<and> strictly_within (AUDIO_DIR base) (AUDIO_DIR base @ path_parts filename)
         \<and> (CHR ''/'' \<notin> set filename \<longrightarrow> path_parts filename = [filename])
         \<and> (disk st (AUDIO_DIR base @ path_parts filename) = None \<longrightarrow>
              serve_audio base filename st
                = Inl (HTTPException 404 ''Audio file not found''))
         \<and> (disk st (AUDIO_DIR base @ path_parts filename) \<noteq> None \<longrightarrow>
              (\<exists>r. serve_audio base filename st = Inr r
                   \<and> fr_path r = AUDIO_DIR base @ path_parts filename
                   \<and> fr_filename r = filename))"
proof -
  let ?p = "AUDIO_DIR base @ path_parts filename"
  have path: "serve_audio_path base filename = ?p"
    using assms(2) by (rule serve_audio_path_relative)
  from assms(1,4) have plain: "''..'' \<notin> set ?p"
    by (simp add: AUDIO_DIR_def)
  have resolved: "resolve (disk st) ?p = Inr ?p"
    using plain assms(5) by (rule resolve_plain)
  have inside: "strictly_within (AUDIO_DIR base) ?p"
    using assms(3) by (rule strictly_within_append)
  have segment: "CHR ''/'' \<notin> set filename \<longrightarrow> path_parts filename = [filename]"
    using assms(3) by (simp add: one_segment_parts)
  have there: "path_exists (disk st) ?p = Inr (disk st ?p \<noteq> None)"
    using plain assms(5) by (rule path_exists_plain)
  have missing: "disk st ?p = None \<longrightarrow>
                   serve_audio base filename st
                     = Inl (HTTPException 404 ''Audio file not found'')"
    by (simp add: serve_audio_def path there HTTP_404_NOT_FOUND_def)
  have found: "disk st ?p \<noteq> None \<longrightarrow>
                 (\<exists>r. serve_audio base filename st = Inr r \<and> fr_path r = ?p
                      \<and> fr_filename r = filename)"
    by (simp add: serve_audio_def path there Let_def)
  from path resolved inside segment missing found show ?thesis
    by (simp only: simp_thms)
qed

lemma parent_directory_request:
  "serve_audio_path example_base ''..'' = [''srv'', ''backend'', ''storage'', ''audio'', ''..'']"
  "resolve (disk example_state) [''srv'', ''backend'', ''storage'', ''audio'', ''..'']
     = Inr [''srv'', ''backend'', ''storage'']"
  "\<not> strictly_within (AUDIO_DIR example_base) [''srv'', ''backend'', ''storage'']"
  "serve_audio example_base ''..'' example_state
     = Inr \<lparr>fr_path = [''srv'', ''backend'', ''storage'', ''audio'', ''..''],
            fr_media_type = ''application/octet-stream'', fr_filename = ''..''\<rparr>"
proof -
  have parts: "path_parts ''..'' = [''..'']"
    by (rule path_parts_single) simp_all
  then show path: "serve_audio_path example_base ''..''
                     = [''srv'', ''backend'', ''storage'', ''audio'', ''..'']"
    by (simp add: serve_audio_path_def path_join_def is_absolute_def AUDIO_DIR_def
        example_base_def)
  show resolved: "resolve (disk example_state) [''srv'', ''backend'', ''storage'', ''audio'', ''..'']
                    = Inr [''srv'', ''backend'', ''storage'']"
    by (simp add: resolve_def check_path_def str_path_def utf8_length_def PATH_MAX_def
        NAME_MAX_def example_state_def)
  show "\<not> strictly_within (AUDIO_DIR example_base) [''srv'', ''backend'', ''storage'']"
    by (simp add: strictly_within_def AUDIO_DIR_def example_base_def)
  have there: "path_exists (disk example_state)
                 [''srv'', ''backend'', ''storage'', ''audio'', ''..''] = Inr True"
    by (simp add: path_exists_def stat_def resolved) (simp add: example_state_def)
  have suffix: "lower (path_suffix [''srv'', ''backend'', ''storage'', ''audio'', ''..'']) = []"
    by (simp add: path_suffix_def path_name_def lower_def)
  show "serve_audio example_base ''..'' example_state
       = Inr \<lparr>fr_path = [''srv'', ''backend'', ''storage'', ''audio'', ''..''],
              fr_media_type = ''application/octet-stream'', fr_filename = ''..''\<rparr>"
    by (simp add: serve_audio_def path there suffix media_types_def)
qed

lemma long_name_request:
  "disk example_state (AUDIO_DIR example_base @ [replicate 300 CHR ''a'']) = None"
  "serve_audio example_base (replicate 300 CHR ''a'') example_state
     = Inl (HTTPException 500
              (''Failed to serve audio file: ''
                 @ str_os_error
                     (FileNameTooLong (AUDIO_DIR example_base @ [replicate 300 CHR ''a'']))))"
proof -
  let ?n = "replicate 300 CHR ''a''"
  have size: "utf8_length ?n = 300"
    by (simp add: utf8_length_replicate)
  have differs: "?n \<noteq> []" "?n \<noteq> ''.''"
    by (auto dest: arg_cong [where f = length])
  have "path_join (AUDIO_DIR example_base) ?n = AUDIO_DIR example_base @ [?n]"
    using differs by (intro path_join_single) simp_all
  then have path: "serve_audio_path example_base ?n = AUDIO_DIR example_base @ [?n]"
    by (simp add: serve_audio_path_def)
  show "disk example_state (AUDIO_DIR example_base @ [?n]) = None"
    using differs by (simp add: example_state_def AUDIO_DIR_def example_base_def)
  have "check_path ([''srv'', ''backend'', ''storage'', ''audio''] @ [?n]) = None"
    by (rule check_path_example) (simp_all add: size)
  then have "check_path (AUDIO_DIR example_base @ [?n]) = None"
    by (simp add: AUDIO_DIR_def example_base_def)
  moreover have "''..'' \<notin> set (AUDIO_DIR example_base)"
    "\<forall>c \<in> set (AUDIO_DIR example_base). utf8_length c \<le> NAME_MAX"
    "disk example_state (AUDIO_DIR example_base) = Some Dir"
    by (simp_all add: AUDIO_DIR_def example_base_def example_state_def utf8_length_def
        NAME_MAX_def)
  moreover have "NAME_MAX < utf8_length ?n"
    by (simp add: size NAME_MAX_def)
  ultimately have "path_exists (disk example_state) (AUDIO_DIR example_base @ [?n])
                     = Inl (FileNameTooLong (AUDIO_DIR example_base @ [?n]))"
    by (intro path_exists_name_too_long)
  then show "serve_audio example_base ?n example_state
     = Inl (HTTPException 500
              (''Failed to serve audio file: ''
                 @ str_os_error (FileNameTooLong (AUDIO_DIR example_base @ [?n]))))"
    by (simp add: serve_audio_def path HTTP_500_INTERNAL_SERVER_ERROR_def)
qed

text \<open>
  Claim C6 as stated fails for two file names of one segment, which the route
  \<^verbatim>\<open>/audio/{filename}\<close> accepts. For \<^verbatim>\<open>..\<close> the joined path resolves to the parent of
  the audio directory, which exists, so the handler does not answer 404 but builds a
  response for that path. For a name of 300 letters nothing exists at the joined path,
  but \<^verbatim>\<open>exists()\<close> raises and the answer is 500.
\<close>

theorem serve_audio_not_confined:
  "serve_audio_path example_base ''..'' = [''srv'', ''backend'', ''storage'', ''audio'', ''..'']
   \<and> resolve (disk example_state) (serve_audio_path example_base ''..'')
       = Inr [''srv'', ''backend'', ''storage'']
   \<and> \<not> strictly_within (AUDIO_DIR example_base) [''srv'', ''backend'', ''storage'']
   \<and> serve_audio example_base ''..'' example_state
       = Inr \<lparr>fr_path = [''srv'', ''backend'', ''storage'', ''audio'', ''..''],
              fr_media_type = ''application/octet-stream'', fr_filename = ''..''\<rparr>
   \<and> disk example_state (AUDIO_DIR example_base @ [replicate 300 CHR ''a'']) = None
   \<and> serve_audio example_base (replicate 300 CHR ''a'') example_state
       = Inl (HTTPException 500
                (''Failed to serve audio file: ''
                   @ str_os_error
                       (FileNameTooLong
                          (AUDIO_DIR example_base @ [replicate 300 CHR ''a'']))))"
  using parent_directory_request long_name_request
  by (simp only: simp_thms)

text \<open>
  The other half of the round trip: the artifact of a job is served under the file name
  that ends the job's \<^verbatim>\<open>audio_url\<close>.
\<close>

lemma synthesize_then_serve:
  assumes "wf_state base st" and "is_uuid_str file_uuid"
    and "fst (synthesize_speech base file_uuid file_now job_uuid job_now request st) = Inr job"
  shows "s_audio_url job = ''/audio/'' @ ''synthesis_'' @ file_uuid @ ''.txt''"
    and "serve_audio base (''synthesis_'' @ file_uuid @ ''.txt'')
           (snd (synthesize_speech base file_uuid file_now job_uuid job_now request st))
         = Inr \<lparr>fr_path = AUDIO_DIR base @ [''synthesis_'' @ file_uuid @ ''.txt''],
                fr_media_type = ''text/plain'',
                fr_filename = ''synthesis_'' @ file_uuid @ ''.txt''\<rparr>"
proof -
  let ?n = "''synthesis_'' @ file_uuid @ ''.txt''"
  from assms(1) have ok: "storage_ok base (disk st)"
    by (simp add: wf_state_def)
  from assms(3) have known: "map_of (voices_db st) (req_voice_id request) \<noteq> None"
    by (auto simp: synthesize_speech_def split: if_splits)
  have accepted: "os_accepts (AUDIO_DIR base @ [?n])"
  proof (rule ccontr)
    assume "\<not> os_accepts (AUDIO_DIR base @ [?n])"
    from synthesize_speech_refused [OF ok assms(2) this] assms(3) show False
      by (metis Inl_Inr_False fst_conv)
  qed
  note run = synthesize_speech_success [OF ok assms(2) known accepted]
  note name = audio_file_path [OF assms(2)]
  note plain = audio_file_plain [OF ok assms(2)]
  from assms(3) show "s_audio_url job = ''/audio/'' @ ''synthesis_'' @ file_uuid @ ''.txt''"
    by (auto simp: run)
  have there: "path_exists d (AUDIO_DIR base @ [?n]) = Inr (d (AUDIO_DIR base @ [?n]) \<noteq> None)"
    for d
    using plain accepted by (rule path_exists_plain)
  have "CHR ''.'' \<notin> set (''synthesis_'' @ file_uuid)"
    using assms(2) by (auto simp: is_uuid_str_def)
  then have "path_suffix (AUDIO_DIR base @ [(''synthesis_'' @ file_uuid) @ CHR ''.'' # ''txt''])
               = CHR ''.'' # ''txt''"
    by (intro path_suffix_extension) simp_all
  then have "path_suffix (AUDIO_DIR base @ [?n]) = ''.txt''"
    by simp
  moreover have "lower ''.txt'' = ''.txt''"
    by (simp add: lower_def lower_char_def)
  ultimately show "serve_audio base ?n
           (snd (synthesize_speech base file_uuid file_now job_uuid job_now request st))
         = Inr \<lparr>fr_path = AUDIO_DIR base @ [?n], fr_media_type = ''text/plain'',
                fr_filename = ?n\<rparr>"
    using name(1) there
    by (simp add: serve_audio_def serve_audio_path_def run media_types_def Let_def)
qed

theorem serve_audio_confined_witness:
  "serve_audio_path example_base ''does-not-exist.wav''
     = [''srv'', ''backend'', ''storage'', ''audio'', ''does-not-exist.wav'']
   \<and> strictly_within (AUDIO_DIR example_base)
       [''srv'', ''backend'', ''storage'', ''audio'', ''does-not-exist.wav'']
   \<and> serve_audio example_base ''does-not-exist.wav'' example_state
       = Inl (HTTPException 404 ''Audio file not found'')
   \<and> serve_audio example_base ''synthesis_7f0c5a52-91d4-4c1e-8a43-5b1f0e6d2a10.txt''
         (snd (synthesize_speech example_base ''7f0c5a52-91d4-4c1e-8a43-5b1f0e6d2a10''
                 ''2024-05-01T09:30:00'' ''0b9d3c6e-2f47-4d8a-9c15-6a7e8f901b22''
                 ''2024-05-01T09:30:01'' example_request example_state))
       = Inr \<lparr>fr_path = [''srv'', ''backend'', ''storage'', ''audio'',
                          ''synthesis_7f0c5a52-91d4-4c1e-8a43-5b1f0e6d2a10.txt''],
              fr_media_type = ''text/plain'',
              fr_filename = ''synthesis_7f0c5a52-91d4-4c1e-8a43-5b1f0e6d2a10.txt''\<rparr>"
proof -
  let ?st = "snd (synthesize_speech example_base ''7f0c5a52-91d4-4c1e-8a43-5b1f0e6d2a10''
                    ''2024-05-01T09:30:00'' ''0b9d3c6e-2f47-4d8a-9c15-6a7e8f901b22''
                    ''2024-05-01T09:30:01'' example_request example_state)"
  let ?missing = "''does-not-exist.wav''"
  let ?artifact = "''synthesis_7f0c5a52-91d4-4c1e-8a43-5b1f0e6d2a10.txt''"
  have base: "''..'' \<notin> set example_base"
    by (simp add: example_base_def)
  have audio: "AUDIO_DIR example_base = [''srv'', ''backend'', ''storage'', ''audio'']"
    by (simp add: AUDIO_DIR_def example_base_def)
  have missing: "path_parts ?missing = [?missing]" "\<not> is_absolute ?missing"
    by (rule plain_name_parts; simp)+
  have artifact: "path_parts ?artifact = [?artifact]" "\<not> is_absolute ?artifact"
    by (rule plain_name_parts; simp)+
  have accepted: "os_accepts (AUDIO_DIR example_base @ path_parts ?missing)"
    "os_accepts (AUDIO_DIR example_base @ path_parts ?artifact)"
    unfolding audio missing artifact
    by (rule os_accepts_example; simp add: utf8_length_def)+
  have absent: "disk example_state (AUDIO_DIR example_base @ path_parts ?missing) = None"
    unfolding audio missing by (simp add: example_state_def)
  have ok: "storage_ok example_base (disk example_state)"
    using wf_example by (simp add: wf_state_def)
  have uuid: "is_uuid_str ''7f0c5a52-91d4-4c1e-8a43-5b1f0e6d2a10''"
    by (simp add: is_uuid_str_def)
  have known: "map_of (voices_db example_state) (req_voice_id example_request) \<noteq> None"
    by (simp add: example_state_def example_request_def)
  have "os_accepts (AUDIO_DIR example_base
                      @ [''synthesis_'' @ ''7f0c5a52-91d4-4c1e-8a43-5b1f0e6d2a10'' @ ''.txt''])"
    using accepted(2) by (simp add: artifact)
  from synthesize_speech_success [OF ok uuid known this]
  have present: "disk ?st (AUDIO_DIR example_base @ path_parts ?artifact) \<noteq> None"
    by (simp add: artifact)
  have components: "path_parts ?missing \<noteq> []" "''..'' \<notin> set (path_parts ?missing)"
    "path_parts ?artifact \<noteq> []" "''..'' \<notin> set (path_parts ?artifact)"
    by (simp_all add: missing artifact)
  from serve_audio_confined [OF base missing(2) components(1,2) accepted(1), of example_state]
    absent
  have first: "serve_audio_path example_base ?missing
                 = AUDIO_DIR example_base @ path_parts ?missing"
    "strictly_within (AUDIO_DIR example_base) (AUDIO_DIR example_base @ path_parts ?missing)"
    "serve_audio example_base ?missing example_state
       = Inl (HTTPException 404 ''Audio file not found'')"
    by blast+
  from serve_audio_confined [OF base artifact(2) components(3,4) accepted(2), of ?st] present
  have second: "\<exists>r. serve_audio example_base ?artifact ?st = Inr r
                    \<and> fr_path r = AUDIO_DIR example_base @ path_parts ?artifact
                    \<and> fr_filename r = ?artifact"
    by blast
  have "serve_audio example_base (''synthesis_'' @ ''7f0c5a52-91d4-4c1e-8a43-5b1f0e6d2a10'' @ ''.txt'') ?st
          = Inr \<lparr>fr_path = AUDIO_DIR example_base
                          @ [''synthesis_'' @ ''7f0c5a52-91d4-4c1e-8a43-5b1f0e6d2a10'' @ ''.txt''],
                 fr_media_type = ''text/plain'',
                 fr_filename = ''synthesis_'' @ ''7f0c5a52-91d4-4c1e-8a43-5b1f0e6d2a10'' @ ''.txt''\<rparr>"
    by (rule synthesize_then_serve(2) [OF wf_example uuid example_synthesis])
  then have exact: "serve_audio example_base ?artifact ?st
                      = Inr \<lparr>fr_path = [''srv'', ''backend'', ''storage'', ''audio'', ?artifact],
                             fr_media_type = ''text/plain'', fr_filename = ?artifact\<rparr>"
    by (simp add: audio)
  from first(1,2) have "serve_audio_path example_base ?missing
                     = [''srv'', ''backend'', ''storage'', ''audio'', ?missing]"
    and "strictly_within (AUDIO_DIR example_base)
           [''srv'', ''backend'', ''storage'', ''audio'', ?missing]"
    by (simp_all add: audio missing)
  with first(3) second exact show ?thesis
    by (intro conjI)
qed

end
